theory Spec2Isabelle
  imports Complex_Main "HOL-Library.Char_ord" "HOL-Library.List_Lexorder"
begin

section \<open>Data model\<close>

text \<open>
  The screens of the application declare the same row type several times
  (\<^verbatim>\<open>interface Transaction\<close> in the transaction list, the analytics screen and
  the dashboard).  One record carries the union of the fields.  The field
  \<^verbatim>\<open>id\<close> is called \<open>ident\<close> and \<^verbatim>\<open>type\<close> is called \<open>txtype\<close>; the joined
  rows \<^verbatim>\<open>categories: { name } | null\<close> and \<^verbatim>\<open>subcategories: { name } | null\<close>
  are the optional name.

  Amounts are JavaScript numbers.  They are modelled as exact rationals: the
  arithmetic of the model is the arithmetic of the source without the
  rounding of IEEE-754 doubles.  The rounding is modelled where a claim
  depends on it: the balance, which two screens compute by adding in
  different orders, is given a second time with every addition rounded, and
  the summary statistics of the analytics screen, where the order of two
  category sums decides the result, take the rounding as a parameter.
\<close>

datatype TxType = Income | Expense

record Transaction =
  ident :: string
  amount :: rat
  description :: string
  txtype :: TxType
  date :: string
  categories :: "string option"
  subcategories :: "string option"

text \<open>A reply of the remote store: \<^verbatim>\<open>{ data, error }\<close>, each possibly null.\<close>

datatype 'a Reply = Reply (data: "'a option") (error: "string option")

text \<open>
  \<^verbatim>\<open>xs.reduce((sum, t) => sum + t.amount, 0)\<close>, the reduction every screen
  uses for a total.
\<close>

definition reduce_amount :: "Transaction list \<Rightarrow> rat" where
  "reduce_amount ts = foldl (\<lambda>sum t. sum + amount t) 0 ts"

section \<open>List Controller: balance\<close>

text \<open>\<^verbatim>\<open>getTotalBalance\<close> of \<^verbatim>\<open>transactions-list.tsx\<close>.\<close>

definition getTotalBalance :: "Transaction list \<Rightarrow> rat" where
  "getTotalBalance transactions =
     foldl (\<lambda>total transaction.
              if txtype transaction = Income
              then total + amount transaction
              else total - amount transaction) 0 transactions"

section \<open>Dashboard Controller\<close>

record DashboardStats =
  totalBalance :: rat
  totalIncome :: rat
  totalExpenses :: rat
  transactionCount :: nat
  recentTransactions :: "Transaction list"

text \<open>
  \<^verbatim>\<open>fetchDashboardData\<close>: the statistics after the reply of the store has
  arrived.  On an error, and on a reply without rows, the function returns
  before \<^verbatim>\<open>setStats\<close> and the statistics stay as they were.
\<close>

definition fetchDashboardData ::
  "DashboardStats \<Rightarrow> Transaction list Reply \<Rightarrow> DashboardStats" where
  "fetchDashboardData stats reply =
     (case error reply of
        Some e \<Rightarrow> stats
      | None \<Rightarrow>
         (case data reply of
            None \<Rightarrow> stats
          | Some transactions \<Rightarrow>
              (let totalIncome = reduce_amount (filter (\<lambda>t. txtype t = Income) transactions);
                   totalExpenses = reduce_amount (filter (\<lambda>t. txtype t = Expense) transactions);
                   totalBalance = totalIncome - totalExpenses
               in \<lparr> totalBalance = totalBalance,
                    totalIncome = totalIncome,
                    totalExpenses = totalExpenses,
                    transactionCount = length transactions,
                    recentTransactions = take 5 transactions \<rparr>)))"

section \<open>Rounded arithmetic\<close>

text \<open>
  A JavaScript number is an IEEE-754 double, and \<^verbatim>\<open>+\<close> and \<^verbatim>\<open>-\<close> return the
  double nearest to the exact result, a tie going to the even significand of
  53 bits.  \<open>ilog2 x\<close> is the exponent \<open>e\<close> with \<open>2\<^sup>e \<le> \<bar>x\<bar> < 2\<^sup>e\<^sup>+\<^sup>1\<close>, found
  by halving or doubling at most 2200 times, which covers the exponents a
  double can have.  Overflow and the subnormal numbers are not modelled.
\<close>

fun ilog2_aux :: "nat \<Rightarrow> rat \<Rightarrow> int" where
  "ilog2_aux 0 x = 0"
| "ilog2_aux (Suc n) x =
     (if x < 1 then ilog2_aux n (2 * x) - 1
      else if 2 \<le> x then ilog2_aux n (x / 2) + 1
      else 0)"

definition ilog2 :: "rat \<Rightarrow> int" where
  "ilog2 x = ilog2_aux 2200 \<bar>x\<bar>"

definition round_half_even :: "rat \<Rightarrow> int" where
  "round_half_even m =
     (let f = \<lfloor>m\<rfloor>; r = m - of_int f
      in if r < 1 / 2 then f
         else if 1 / 2 < r then f + 1
         else if even f then f else f + 1)"

definition round_double :: "rat \<Rightarrow> rat" where
  "round_double x =
     (if x = 0 then 0
      else (let e = ilog2 x - 52;
                u = (if 0 \<le> e then 2 ^ nat e else 1 / 2 ^ nat (- e))
            in of_int (round_half_even (x / u)) * u))"

text \<open>
  \<^verbatim>\<open>getTotalBalance\<close> and the \<^verbatim>\<open>totalBalance\<close> of \<^verbatim>\<open>fetchDashboardData\<close> once
  more, with the rounding \<open>rnd\<close> applied to the result of every addition and
  subtraction.  With the identity for \<open>rnd\<close> they are the functions above.
\<close>

definition getTotalBalance_rounded :: "(rat \<Rightarrow> rat) \<Rightarrow> Transaction list \<Rightarrow> rat" where
  "getTotalBalance_rounded rnd transactions =
     foldl (\<lambda>total transaction.
              if txtype transaction = Income
              then rnd (total + amount transaction)
              else rnd (total - amount transaction)) 0 transactions"

definition reduce_amount_rounded :: "(rat \<Rightarrow> rat) \<Rightarrow> Transaction list \<Rightarrow> rat" where
  "reduce_amount_rounded rnd ts = foldl (\<lambda>sum t. rnd (sum + amount t)) 0 ts"

definition totalBalance_rounded :: "(rat \<Rightarrow> rat) \<Rightarrow> Transaction list \<Rightarrow> rat" where
  "totalBalance_rounded rnd transactions =
     (let totalIncome = reduce_amount_rounded rnd (filter (\<lambda>t. txtype t = Income) transactions);
          totalExpenses = reduce_amount_rounded rnd (filter (\<lambda>t. txtype t = Expense) transactions)
      in rnd (totalIncome - totalExpenses))"

section \<open>Host functions and containers\<close>

text \<open>
  A JavaScript \<^verbatim>\<open>Map\<close> keeps its entries in insertion order, and
  \<^verbatim>\<open>Array.from(map.entries())\<close> lists them in that order.  The model is an
  association list with distinct keys: \<open>Map_set\<close> overwrites the value of a
  key that is present, in place, and appends a new key at the end.
\<close>

definition Map_get :: "('k \<times> 'v) list \<Rightarrow> 'k \<Rightarrow> 'v option" where
  "Map_get m k = map_of m k"

definition Map_has :: "('k \<times> 'v) list \<Rightarrow> 'k \<Rightarrow> bool" where
  "Map_has m k = (Map_get m k \<noteq> None)"

fun Map_set :: "'k \<Rightarrow> 'v \<Rightarrow> ('k \<times> 'v) list \<Rightarrow> ('k \<times> 'v) list" where
  "Map_set k v [] = [(k, v)]"
| "Map_set k v ((k', v') # m) =
     (if k' = k then (k, v) # m else (k', v') # Map_set k v m)"

text \<open>\<^verbatim>\<open>xs.slice(-n)\<close>: the last \<open>n\<close> elements, all of them when there are fewer.\<close>

definition slice_last :: "nat \<Rightarrow> 'a list \<Rightarrow> 'a list" where
  "slice_last n xs = drop (length xs - n) xs"

text \<open>\<^verbatim>\<open>String(n)\<close> for a natural number and for an integer, in decimal.\<close>

definition digit_char :: "nat \<Rightarrow> char" where
  "digit_char d = char_of (48 + d)"

fun String_nat :: "nat \<Rightarrow> string" where
  "String_nat n =
     (if n < 10 then [digit_char n]
      else String_nat (n div 10) @ [digit_char (n mod 10)])"

declare String_nat.simps [simp del]

definition String_int :: "int \<Rightarrow> string" where
  "String_int i =
     (if i < 0 then CHR ''-'' # String_nat (nat (- i)) else String_nat (nat i))"

text \<open>\<^verbatim>\<open>s.padStart(n, c)\<close> for a pad string of one character.\<close>

definition padStart :: "nat \<Rightarrow> char \<Rightarrow> string \<Rightarrow> string" where
  "padStart n c s = replicate (n - length s) c @ s"

text \<open>
  \<^verbatim>\<open>new Date(s)\<close> and its getters belong to the JavaScript host and read the
  time zone of the device.  The model takes them as a parameter: the local
  year and the local month index (0 to 11) of a timestamp string, and the
  \<^verbatim>\<open>toLocaleDateString('en-US', { month: 'short' })\<close> label of a date string.
  A text that is no date, for which the getters return \<^verbatim>\<open>NaN\<close>, is outside
  the model.
\<close>

record DateHost =
  getFullYear :: "string \<Rightarrow> int"
  getMonth :: "string \<Rightarrow> nat"
  shortMonth :: "string \<Rightarrow> string"

section \<open>Aggregation Engine (analytics screen)\<close>

record MonthlyData =
  md_month :: string
  md_income :: rat
  md_expense :: rat
  md_net :: rat

record CategorySpending =
  cs_name :: string
  cs_amount :: rat
  cs_percentage :: rat
  cs_color :: string
  cs_count :: nat

record DailyData =
  dd_date :: string
  dd_amount :: rat

datatype TimePeriod = Days7 | Days30 | Days90 | Year1 | AllTime

record TotalStats =
  st_totalIncome :: rat
  st_totalExpenses :: rat
  st_avgDaily :: rat
  st_transactionCount :: nat
  st_topCategory :: string
  st_savingsRate :: rat

subsection \<open>Monthly series\<close>

text \<open>
  The template literal
  \<^verbatim>\<open>`${date.getFullYear()}-${String(date.getMonth() + 1).padStart(2, '0')}`\<close>.
\<close>

definition monthKey :: "DateHost \<Rightarrow> Transaction \<Rightarrow> string" where
  "monthKey h t =
     String_int (getFullYear h (date t)) @ ''-'' @
     padStart 2 (CHR ''0'') (String_nat (getMonth h (date t) + 1))"

text \<open>
  One round of the \<^verbatim>\<open>forEach\<close> of \<^verbatim>\<open>processMonthlyData\<close>.  A value of the
  map is the pair (income, expense).  The lookup after the insertion always
  finds the key.
\<close>

definition monthly_step ::
  "DateHost \<Rightarrow> (string \<times> rat \<times> rat) list \<Rightarrow> Transaction \<Rightarrow> (string \<times> rat \<times> rat) list" where
  "monthly_step h monthlyMap t =
     (let k = monthKey h t;
          m1 = (if \<not> Map_has monthlyMap k then Map_set k (0, 0) monthlyMap else monthlyMap)
      in case Map_get m1 k of
           None \<Rightarrow> m1
         | Some (income, expense) \<Rightarrow>
             if txtype t = Income
             then Map_set k (income + amount t, expense) m1
             else Map_set k (income, expense + amount t) m1)"

definition build_monthlyMap :: "DateHost \<Rightarrow> Transaction list \<Rightarrow> (string \<times> rat \<times> rat) list" where
  "build_monthlyMap h transactions = foldl (monthly_step h) [] transactions"

text \<open>
  The entries sorted by key and cut to the last six.  \<^verbatim>\<open>localeCompare\<close> is
  modelled by the lexicographic order on character codes, with which it
  agrees on keys made of digits and a hyphen at a fixed position.
\<close>

definition monthlyBuckets :: "DateHost \<Rightarrow> Transaction list \<Rightarrow> (string \<times> rat \<times> rat) list" where
  "monthlyBuckets h transactions = slice_last 6 (sort_key fst (build_monthlyMap h transactions))"

definition processMonthlyData :: "DateHost \<Rightarrow> Transaction list \<Rightarrow> MonthlyData list" where
  "processMonthlyData h transactions =
     map (\<lambda>(month, income, expense).
            \<lparr> md_month = shortMonth h (month @ ''-01''),
              md_income = income,
              md_expense = expense,
              md_net = income - expense \<rparr>)
         (monthlyBuckets h transactions)"

subsection \<open>Category breakdown\<close>

text \<open>\<^verbatim>\<open>t.categories?.name || 'Uncategorized'\<close>: a missing and an empty name both fall back.\<close>

definition categoryName :: "Transaction \<Rightarrow> string" where
  "categoryName t =
     (case categories t of
        None \<Rightarrow> ''Uncategorized''
      | Some n \<Rightarrow> if n = [] then ''Uncategorized'' else n)"

definition category_step ::
  "(string \<times> rat \<times> nat) list \<Rightarrow> Transaction \<Rightarrow> (string \<times> rat \<times> nat) list" where
  "category_step categoryMap t =
     (let k = categoryName t;
          m1 = (if \<not> Map_has categoryMap k then Map_set k (0, 0) categoryMap else categoryMap)
      in case Map_get m1 k of
           None \<Rightarrow> m1
         | Some (a, c) \<Rightarrow> Map_set k (a + amount t, c + 1) m1)"

definition build_categoryMap :: "Transaction list \<Rightarrow> (string \<times> rat \<times> nat) list" where
  "build_categoryMap transactions =
     foldl category_step [] (filter (\<lambda>t. txtype t = Expense) transactions)"

definition colors :: "string list" where
  "colors = [''#FF6B6B'', ''#4ECDC4'', ''#45B7D1'', ''#96CEB4'', ''#FECA57'', ''#FF9FF3'', ''#54A0FF'']"

definition categoryTotal :: "(string \<times> rat \<times> nat) list \<Rightarrow> rat" where
  "categoryTotal m = foldl (\<lambda>sum cat. sum + fst cat) 0 (map snd m)"

text \<open>
  \<^verbatim>\<open>Array.prototype.sort\<close> is stable, and the comparator
  \<^verbatim>\<open>(a, b) => b.amount - a.amount\<close> orders by descending amount: a stable sort
  on the negated amount.
\<close>

definition processCategoryData :: "Transaction list \<Rightarrow> CategorySpending list" where
  "processCategoryData transactions =
     (let categoryMap = build_categoryMap transactions;
          totalExpenses = categoryTotal categoryMap
      in take 7
           (sort_key (\<lambda>c. - cs_amount c)
              (map (\<lambda>(index, name, a, c).
                      \<lparr> cs_name = name,
                        cs_amount = a,
                        cs_percentage = (if totalExpenses > 0 then (a / totalExpenses) * 100 else 0),
                        cs_color = colors ! (index mod length colors),
                        cs_count = c \<rparr>)
                   (enumerate 0 categoryMap))))"

subsection \<open>Daily series\<close>

text \<open>\<^verbatim>\<open>t.date.split('T')[0]\<close>: the text before the first \<^verbatim>\<open>T\<close>, all of it when there is none.\<close>

definition dateKey :: "Transaction \<Rightarrow> string" where
  "dateKey t = takeWhile (\<lambda>c. c \<noteq> CHR ''T'') (date t)"

text \<open>\<^verbatim>\<open>map.get(k) || 0\<close>: an absent key and a stored zero both give zero.\<close>

definition get_or_zero :: "(string \<times> rat) list \<Rightarrow> string \<Rightarrow> rat" where
  "get_or_zero m k = (case Map_get m k of None \<Rightarrow> 0 | Some v \<Rightarrow> if v = 0 then 0 else v)"

definition daily_step :: "(string \<times> rat) list \<Rightarrow> Transaction \<Rightarrow> (string \<times> rat) list" where
  "daily_step dailyMap t =
     Map_set (dateKey t) (get_or_zero dailyMap (dateKey t) + amount t) dailyMap"

definition build_dailyMap :: "Transaction list \<Rightarrow> (string \<times> rat) list" where
  "build_dailyMap transactions =
     foldl daily_step [] (filter (\<lambda>t. txtype t = Expense) transactions)"

definition processDailyData :: "Transaction list \<Rightarrow> DailyData list" where
  "processDailyData transactions =
     map (\<lambda>(d, a). \<lparr> dd_date = d, dd_amount = a \<rparr>)
         (slice_last 30 (sort_key fst (build_dailyMap transactions)))"

subsection \<open>Summary statistics\<close>

text \<open>
  \<^verbatim>\<open>calculateTotalStats\<close>.  Every arithmetic operation of the function is
  followed by the rounding \<open>rnd\<close>: \<open>round_double\<close> gives the function as
  JavaScript runs it, the identity gives it in exact arithmetic.  The loop
  over the expenses is
  \<^verbatim>\<open>categoryMap.set(category, (categoryMap.get(category) || 0) + t.amount)\<close>
  with \<^verbatim>\<open>category = t.categories?.name || 'Uncategorized'\<close>.
\<close>

definition top_step ::
  "(rat \<Rightarrow> rat) \<Rightarrow> (string \<times> rat) list \<Rightarrow> Transaction \<Rightarrow> (string \<times> rat) list" where
  "top_step rnd categoryMap t =
     Map_set (categoryName t)
       (rnd (get_or_zero categoryMap (categoryName t) + amount t)) categoryMap"

definition build_topCategoryMap :: "(rat \<Rightarrow> rat) \<Rightarrow> Transaction list \<Rightarrow> (string \<times> rat) list" where
  "build_topCategoryMap rnd transactions =
     foldl (top_step rnd) [] (filter (\<lambda>t. txtype t = Expense) transactions)"

text \<open>
  \<^verbatim>\<open>Array.from(categoryMap.entries()).sort(([,a], [,b]) => b - a)[0]?.[0] || 'None'\<close>.
  The sort is stable and its comparator orders the entries by descending
  value; the difference \<^verbatim>\<open>b - a\<close> of two doubles is zero only when they are
  equal, and its sign is the sign of the exact difference.
\<close>

definition topCategory :: "(rat \<Rightarrow> rat) \<Rightarrow> Transaction list \<Rightarrow> string" where
  "topCategory rnd transactions =
     (case sort_key (\<lambda>e. - snd e) (build_topCategoryMap rnd transactions) of
        [] \<Rightarrow> ''None''
      | e # _ \<Rightarrow> if fst e = [] then ''None'' else fst e)"

definition calculateTotalStats ::
  "(rat \<Rightarrow> rat) \<Rightarrow> TimePeriod \<Rightarrow> Transaction list \<Rightarrow> TotalStats" where
  "calculateTotalStats rnd timePeriod transactions =
     (let income = reduce_amount_rounded rnd (filter (\<lambda>t. txtype t = Income) transactions);
          expenses = reduce_amount_rounded rnd (filter (\<lambda>t. txtype t = Expense) transactions);
          days = (case timePeriod of
                    Days7 \<Rightarrow> 7 | Days30 \<Rightarrow> 30 | Days90 \<Rightarrow> 90 | Year1 \<Rightarrow> 365
                  | AllTime \<Rightarrow> max 1 (length transactions));
          savingsRate = (if income > 0
                         then rnd (rnd (rnd (income - expenses) / income) * 100)
                         else 0)
      in \<lparr> st_totalIncome = income,
           st_totalExpenses = expenses,
           st_avgDaily = rnd (expenses / of_nat days),
           st_transactionCount = length transactions,
           st_topCategory = topCategory rnd transactions,
           st_savingsRate = savingsRate \<rparr>)"

section \<open>Effects and the remote store\<close>

text \<open>
  A JavaScript number as \<^verbatim>\<open>parseFloat\<close> returns it: \<^verbatim>\<open>NaN\<close>, an infinity or a
  finite value (an exact rational, as for the amounts).
\<close>

datatype JSNumber = NaN | Finite rat | PosInfinity | NegInfinity

text \<open>The object \<^verbatim>\<open>transactionData\<close> that \<^verbatim>\<open>handleSubmit\<close> sends; \<^verbatim>\<open>null\<close> is \<open>None\<close>.\<close>

record TransactionData =
  td_amount :: JSNumber
  td_description :: string
  td_type :: TxType
  td_date :: string
  td_category_id :: string
  td_subcategory_id :: "string option"

text \<open>
  The calls on the table \<^verbatim>\<open>transactions\<close>: \<^verbatim>\<open>insert([row])\<close>,
  \<^verbatim>\<open>update(row).eq("id", id)\<close> and \<^verbatim>\<open>delete().eq("id", id)\<close>.
\<close>

datatype Request =
    Insert "TransactionData list"
  | Update TransactionData string
  | Delete string

text \<open>
  What a controller does to the outside, in order: a modal alert (title and
  message), a line on the error console, a call of the remote store, a
  navigation back.
\<close>

datatype Effect =
    Alert string string
  | ConsoleError string
  | Call Request
  | RouterBack

text \<open>
  How an awaited call ends: it resolves without an error object, it resolves
  with one, or it throws.
\<close>

datatype Outcome = Succeeded | Failed string | Thrown string

section \<open>List Controller: delete\<close>

text \<open>\<^verbatim>\<open>deleteTransaction\<close>: the list after the call, and the effects.\<close>

definition deleteTransaction ::
  "(Request \<Rightarrow> Outcome) \<Rightarrow> string \<Rightarrow> Transaction list \<Rightarrow> Transaction list \<times> Effect list" where
  "deleteTransaction remote i transactions =
     (case remote (Delete i) of
        Failed e \<Rightarrow>
          (transactions,
           [Call (Delete i), ConsoleError ''Error deleting transaction:'',
            Alert ''Error'' ''Failed to delete transaction''])
      | Succeeded \<Rightarrow>
          (filter (\<lambda>t. ident t \<noteq> i) transactions,
           [Call (Delete i), Alert ''Success'' ''Transaction deleted successfully''])
      | Thrown e \<Rightarrow>
          (transactions,
           [Call (Delete i), ConsoleError ''Unexpected error:'',
            Alert ''Error'' ''An unexpected error occurred'']))"

text \<open>
  \<^verbatim>\<open>confirmDelete\<close> shows an alert with the buttons \<^verbatim>\<open>Cancel\<close> and \<^verbatim>\<open>Delete\<close>;
  only \<^verbatim>\<open>Delete\<close> has a handler, which calls \<^verbatim>\<open>deleteTransaction\<close>.
\<close>

datatype Button = CancelButton | DeleteButton

definition confirmDelete ::
  "(Request \<Rightarrow> Outcome) \<Rightarrow> Button \<Rightarrow> string \<Rightarrow> string \<Rightarrow> Transaction list
     \<Rightarrow> Transaction list \<times> Effect list" where
  "confirmDelete remote pressed i descr transactions =
     (let ask = Alert ''Delete Transaction''
                  (''Are you sure you want to delete \"'' @ descr @ ''\"?'')
      in case pressed of
           CancelButton \<Rightarrow> (transactions, [ask])
         | DeleteButton \<Rightarrow>
             (let (transactions', effects) = deleteTransaction remote i transactions
              in (transactions', ask # effects)))"

section \<open>Form Controller\<close>

record Category =
  category_ident :: string
  category_name :: string
  category_type :: TxType

record Subcategory =
  sub_ident :: string
  sub_name :: string
  sub_category_id :: string

text \<open>
  The state variables of \<^verbatim>\<open>AddTransaction\<close>.  Those whose names the record
  \<open>Transaction\<close> already uses carry the prefix \<open>form_\<close>.  The date is held as
  the text \<^verbatim>\<open>toISOString\<close> gives for it.
\<close>

record FormState =
  form_amount :: string
  form_description :: string
  form_type :: TxType
  form_date :: string
  form_categories :: "Category list"
  selectedCategory :: string
  form_subcategories :: "Subcategory list"
  selectedSubcategory :: string
  loading :: bool

text \<open>The route parameters the form reads.\<close>

record Props =
  isEditMode :: bool
  transactionId :: string
  param_categoryName :: string
  param_subcategoryName :: string

text \<open>
  The outside of the form: the reply of the store to the query for the
  subcategories of a category, the outcome of a write, and the current time.
\<close>

record Remote =
  subcategoriesOf :: "string \<Rightarrow> Subcategory list Reply"
  respond :: "Request \<Rightarrow> Outcome"
  now :: string

subsection \<open>Host functions on strings\<close>

text \<open>
  White space and line terminators of ECMAScript, as far as they are single
  characters here: tab, line feed, vertical tab, form feed, carriage return,
  space and no-break space.
\<close>

definition isWhiteSpace :: "char \<Rightarrow> bool" where
  "isWhiteSpace c = (of_char c \<in> {9, 10, 11, 12, 13, 32, 160 :: nat})"

definition trim :: "string \<Rightarrow> string" where
  "trim s = rev (dropWhile isWhiteSpace (rev (dropWhile isWhiteSpace s)))"

definition isDigit :: "char \<Rightarrow> bool" where
  "isDigit c = (48 \<le> (of_char c :: nat) \<and> (of_char c :: nat) \<le> 57)"

definition digits_value :: "string \<Rightarrow> nat" where
  "digits_value s = foldl (\<lambda>n c. 10 * n + (of_char c - 48)) 0 s"

text \<open>
  The exponent part \<^verbatim>\<open>e\<close>, \<^verbatim>\<open>e+\<close> or \<^verbatim>\<open>e-\<close> followed by digits; without
  digits there is no exponent and the factor is 1.
\<close>

definition exponent_factor :: "string \<Rightarrow> rat" where
  "exponent_factor s =
     (case s of
        [] \<Rightarrow> 1
      | c # r \<Rightarrow>
          if c = CHR ''e'' \<or> c = CHR ''E'' then
            (case r of
               [] \<Rightarrow> 1
             | d # r' \<Rightarrow>
                 if d = CHR ''-'' then
                   (if takeWhile isDigit r' = [] then 1
                    else 1 / 10 ^ digits_value (takeWhile isDigit r'))
                 else if d = CHR ''+'' then
                   (if takeWhile isDigit r' = [] then 1
                    else 10 ^ digits_value (takeWhile isDigit r'))
                 else
                   (if takeWhile isDigit r = [] then 1
                    else 10 ^ digits_value (takeWhile isDigit r)))
          else 1)"

text \<open>
  The unsigned part of a decimal literal: \<^verbatim>\<open>Infinity\<close>, or digits with an
  optional fraction and exponent, of which the longest prefix counts; \<open>None\<close>
  when the text starts with neither.
\<close>

definition unsigned_literal :: "string \<Rightarrow> JSNumber option" where
  "unsigned_literal s =
     (if take 8 s = ''Infinity'' then Some PosInfinity
      else
        (let ip = takeWhile isDigit s;
             r1 = dropWhile isDigit s;
             fp = (case r1 of [] \<Rightarrow> [] | c # r \<Rightarrow> if c = CHR ''.'' then takeWhile isDigit r else []);
             r2 = (case r1 of [] \<Rightarrow> [] | c # r \<Rightarrow> if c = CHR ''.'' then dropWhile isDigit r else r1)
         in if ip = [] \<and> fp = [] then None
            else Some (Finite ((of_nat (digits_value ip)
                                 + of_nat (digits_value fp) / 10 ^ length fp)
                               * exponent_factor r2))))"

text \<open>
  \<^verbatim>\<open>parseFloat\<close>: leading white space is skipped, a sign is read, and the
  longest prefix that is a decimal literal gives the value; \<^verbatim>\<open>NaN\<close> when there
  is none.
\<close>

definition negate :: "JSNumber \<Rightarrow> JSNumber" where
  "negate x = (case x of NaN \<Rightarrow> NaN | Finite r \<Rightarrow> Finite (- r)
               | PosInfinity \<Rightarrow> NegInfinity | NegInfinity \<Rightarrow> PosInfinity)"

definition parseFloat :: "string \<Rightarrow> JSNumber" where
  "parseFloat s =
     (case dropWhile isWhiteSpace s of
        [] \<Rightarrow> NaN
      | c # r \<Rightarrow>
          if c = CHR ''-'' then (case unsigned_literal r of None \<Rightarrow> NaN | Some x \<Rightarrow> negate x)
          else if c = CHR ''+'' then (case unsigned_literal r of None \<Rightarrow> NaN | Some x \<Rightarrow> x)
          else (case unsigned_literal (c # r) of None \<Rightarrow> NaN | Some x \<Rightarrow> x))"

definition isNaN :: "JSNumber \<Rightarrow> bool" where
  "isNaN x = (x = NaN)"

text \<open>The comparison \<^verbatim>\<open>x <= 0\<close>, which is false for \<^verbatim>\<open>NaN\<close>.\<close>

definition le_zero :: "JSNumber \<Rightarrow> bool" where
  "le_zero x = (case x of NaN \<Rightarrow> False | Finite r \<Rightarrow> r \<le> 0
                | PosInfinity \<Rightarrow> False | NegInfinity \<Rightarrow> True)"

subsection \<open>Subcategories follow the category\<close>

text \<open>
  The effect on \<^verbatim>\<open>[subcategories, isEditMode, params.subcategoryName]\<close>: in edit
  mode the subcategory with the name of the route parameter is selected once
  the list holds it.
\<close>

definition subcategoryMatchEffect :: "Props \<Rightarrow> FormState \<Rightarrow> FormState" where
  "subcategoryMatchEffect props st =
     (if isEditMode props \<and> form_subcategories st \<noteq> [] \<and> param_subcategoryName props \<noteq> []
      then (case find (\<lambda>sub. sub_name sub = param_subcategoryName props) (form_subcategories st) of
              Some sub \<Rightarrow> st\<lparr> selectedSubcategory := sub_ident sub \<rparr>
            | None \<Rightarrow> st)
      else st)"

text \<open>
  \<^verbatim>\<open>fetchSubcategories\<close>, with the reply of the store.  It stores the list (the
  empty list after an error) and nothing else; the change of the list then
  runs the effect above.
\<close>

definition fetchSubcategories ::
  "Props \<Rightarrow> Subcategory list Reply \<Rightarrow> FormState \<Rightarrow> FormState \<times> Effect list" where
  "fetchSubcategories props reply st =
     (case error reply of
        Some e \<Rightarrow>
          (subcategoryMatchEffect props (st\<lparr> form_subcategories := [] \<rparr>),
           [ConsoleError ''Error fetching subcategories:'',
            Alert ''Error'' ''Failed to fetch subcategories''])
      | None \<Rightarrow>
          (subcategoryMatchEffect props
             (st\<lparr> form_subcategories := (case data reply of None \<Rightarrow> [] | Some d \<Rightarrow> d) \<rparr>),
           []))"

text \<open>The effect on \<^verbatim>\<open>[selectedCategory]\<close>: \<^verbatim>\<open>Fetch subcategories when category changes\<close>.\<close>

definition categoryEffect :: "Props \<Rightarrow> Remote \<Rightarrow> FormState \<Rightarrow> FormState \<times> Effect list" where
  "categoryEffect props remote st =
     (if selectedCategory st \<noteq> []
      then fetchSubcategories props (subcategoriesOf remote (selectedCategory st)) st
      else (subcategoryMatchEffect props
              (st\<lparr> form_subcategories := [], selectedSubcategory := [] \<rparr>), []))"

text \<open>
  \<^verbatim>\<open>setSelectedCategory\<close>, the handler of the category picker, followed by the
  effect when the value has changed.
\<close>

definition setSelectedCategory ::
  "Props \<Rightarrow> Remote \<Rightarrow> string \<Rightarrow> FormState \<Rightarrow> FormState \<times> Effect list" where
  "setSelectedCategory props remote c st =
     (if c = selectedCategory st then (st, [])
      else categoryEffect props remote (st\<lparr> selectedCategory := c \<rparr>))"

text \<open>\<^verbatim>\<open>setSelectedSubcategory\<close>, the handler of the subcategory picker.\<close>

definition setSelectedSubcategory :: "string \<Rightarrow> FormState \<Rightarrow> FormState" where
  "setSelectedSubcategory s st = st\<lparr> selectedSubcategory := s \<rparr>"

subsection \<open>Validation and submission\<close>

text \<open>\<^verbatim>\<open>validateForm\<close>: the verdict and the alert it shows.\<close>

definition validateForm :: "FormState \<Rightarrow> bool \<times> Effect list" where
  "validateForm st =
     (if form_amount st = [] \<or> isNaN (parseFloat (form_amount st))
      then (False, [Alert ''Invalid Input'' ''Please enter a valid amount''])
      else if le_zero (parseFloat (form_amount st))
      then (False, [Alert ''Invalid Input'' ''Amount must be greater than 0''])
      else if selectedCategory st = []
      then (False, [Alert ''Missing Information'' ''Please select a category''])
      else if trim (form_description st) = []
      then (False, [Alert ''Missing Information'' ''Please enter a description''])
      else (True, []))"

definition transactionData :: "FormState \<Rightarrow> TransactionData" where
  "transactionData st =
     \<lparr> td_amount = parseFloat (form_amount st),
       td_description = trim (form_description st),
       td_type = form_type st,
       td_date = form_date st,
       td_category_id = selectedCategory st,
       td_subcategory_id = (if selectedSubcategory st = [] then None else Some (selectedSubcategory st)) \<rparr>"

text \<open>
  \<^verbatim>\<open>handleSubmit\<close>: the state when the function has returned (\<^verbatim>\<open>loading\<close> is
  false again after the \<^verbatim>\<open>finally\<close>) and the effects in order.
\<close>

definition handleSubmit :: "Props \<Rightarrow> Remote \<Rightarrow> FormState \<Rightarrow> FormState \<times> Effect list" where
  "handleSubmit props remote st =
     (case validateForm st of
        (False, alerts) \<Rightarrow> (st, alerts)
      | (True, alerts) \<Rightarrow>
          (let request = (if isEditMode props
                          then Update (transactionData st) (transactionId props)
                          else Insert [transactionData st]);
               verb = (if isEditMode props then ''update'' else ''add'');
               verbing = (if isEditMode props then ''updating'' else ''adding'');
               verbed = (if isEditMode props then ''updated'' else ''added'')
           in (st\<lparr> loading := False \<rparr>,
               alerts @ [Call request] @
               (case respond remote request of
                  Failed e \<Rightarrow>
                    [ConsoleError (''Error '' @ verbing @ '' transaction:''),
                     Alert ''Error'' (''Failed to '' @ verb @ '' transaction. Please try again.'')]
                | Succeeded \<Rightarrow>
                    [Alert ''Success'' (''Transaction '' @ verbed @ '' successfully!'')]
                | Thrown e \<Rightarrow>
                    [ConsoleError ''Unexpected error:'',
                     Alert ''Error'' ''An unexpected error occurred. Please try again.'']))))"

text \<open>
  \<^verbatim>\<open>resetForm\<close>.  Clearing the category runs the category effect when a
  category was selected.
\<close>

definition resetForm :: "Props \<Rightarrow> Remote \<Rightarrow> FormState \<Rightarrow> FormState" where
  "resetForm props remote st =
     (let st1 = st\<lparr> form_amount := [], form_description := [], form_type := Expense,
                     selectedCategory := [], selectedSubcategory := [],
                     form_date := now remote \<rparr>
      in if selectedCategory st = [] then st1 else fst (categoryEffect props remote st1))"

text \<open>
  The form when it opens for a new transaction, with the categories loaded,
  and the events of the user.  A picker offers the empty value and the
  identifiers it lists: the category picker the categories of the chosen type,
  the subcategory picker (enabled when the list is not empty) the loaded
  subcategories.  A value that is not offered cannot be picked.
\<close>

definition initialState :: "Remote \<Rightarrow> Category list \<Rightarrow> FormState" where
  "initialState remote cats =
     \<lparr> form_amount = [], form_description = [], form_type = Expense,
       form_date = now remote, form_categories = cats, selectedCategory = [],
       form_subcategories = [], selectedSubcategory = [], loading = False \<rparr>"

datatype FormEvent =
    TypeAmount string
  | TypeDescription string
  | PressType TxType
  | PickCategory string
  | PickSubcategory string
  | PressSubmit

definition formStep :: "Props \<Rightarrow> Remote \<Rightarrow> FormState \<times> Effect list \<Rightarrow> FormEvent \<Rightarrow> FormState \<times> Effect list" where
  "formStep props remote se ev =
     (let st = fst se; done = snd se in
      case ev of
        TypeAmount a \<Rightarrow> (st\<lparr> form_amount := a \<rparr>, done)
      | TypeDescription d \<Rightarrow> (st\<lparr> form_description := d \<rparr>, done)
      | PressType k \<Rightarrow> (st\<lparr> form_type := k \<rparr>, done)
      | PickCategory c \<Rightarrow>
          if c = [] \<or> c \<in> set (map category_ident
                                  (filter (\<lambda>cat. category_type cat = form_type st) (form_categories st)))
          then (let (st', effects) = setSelectedCategory props remote c st in (st', done @ effects))
          else (st, done)
      | PickSubcategory s \<Rightarrow>
          if form_subcategories st \<noteq> []
             \<and> (s = [] \<or> s \<in> set (map sub_ident (form_subcategories st)))
          then (setSelectedSubcategory s st, done)
          else (st, done)
      | PressSubmit \<Rightarrow>
          (let (st', effects) = handleSubmit props remote st in (st', done @ effects)))"

definition runForm :: "Props \<Rightarrow> Remote \<Rightarrow> FormState \<Rightarrow> FormEvent list \<Rightarrow> FormState \<times> Effect list" where
  "runForm props remote st evs = foldl (formStep props remote) (st, []) evs"

section \<open>Vocabulary of the claims\<close>

text \<open>The mathematical sum of the amounts of one kind, the yardstick of the claims.\<close>

definition sum_of_kind :: "TxType \<Rightarrow> Transaction list \<Rightarrow> rat" where
  "sum_of_kind k ts = (\<Sum>t\<leftarrow>filter (\<lambda>t. txtype t = k) ts. amount t)"

text \<open>
  The exact values the running total of \<^verbatim>\<open>getTotalBalance\<close> and the running sum of
  a \<^verbatim>\<open>reduce\<close> pass through, and a rounding that leaves each value of a list as
  it is.
\<close>

fun signed_partials :: "rat \<Rightarrow> Transaction list \<Rightarrow> rat list" where
  "signed_partials a [] = []"
| "signed_partials a (t # ts) =
     (if txtype t = Income
      then (a + amount t) # signed_partials (a + amount t) ts
      else (a - amount t) # signed_partials (a - amount t) ts)"

fun sum_partials :: "rat \<Rightarrow> Transaction list \<Rightarrow> rat list" where
  "sum_partials a [] = []"
| "sum_partials a (t # ts) = (a + amount t) # sum_partials (a + amount t) ts"

definition exact_on :: "(rat \<Rightarrow> rat) \<Rightarrow> rat list \<Rightarrow> bool" where
  "exact_on rnd xs = (\<forall>x\<in>set xs. rnd x = x)"

text \<open>The expense transactions of a list, in the order of the list.\<close>

definition expenses_of :: "Transaction list \<Rightarrow> Transaction list" where
  "expenses_of ts = filter (\<lambda>t. txtype t = Expense) ts"

text \<open>
  The category an expense is counted under, as the specification words it:
  the name of its category, and \<^verbatim>\<open>Uncategorized\<close> for a transaction without a
  category or with a category whose name is empty.
\<close>

definition countedUnder :: "Transaction \<Rightarrow> string" where
  "countedUnder t =
     (if categories t = None \<or> categories t = Some [] then ''Uncategorized''
      else the (categories t))"

text \<open>
  The summed expense amount of one category: the amounts of the expenses
  counted under it, added in the order of the list, every addition followed
  by the rounding \<open>rnd\<close>.
\<close>

definition categoryTotalOf :: "(rat \<Rightarrow> rat) \<Rightarrow> Transaction list \<Rightarrow> string \<Rightarrow> rat" where
  "categoryTotalOf rnd ts c =
     foldl (\<lambda>s t. rnd (s + amount t)) 0 (filter (\<lambda>t. countedUnder t = c) (expenses_of ts))"

text \<open>The distinct elements of a list in the order in which they first occur.\<close>

definition first_seen :: "'a list \<Rightarrow> 'a list" where
  "first_seen xs = rev (remdups (rev xs))"

text \<open>
  The common shape of the four grouping loops: look the key up, start from
  \<open>init\<close> when it is absent, store the updated value.
\<close>

definition upsert :: "'k \<Rightarrow> 'v \<Rightarrow> ('v \<Rightarrow> 'v) \<Rightarrow> ('k \<times> 'v) list \<Rightarrow> ('k \<times> 'v) list" where
  "upsert k init f m = Map_set k (f (case map_of m k of None \<Rightarrow> init | Some v \<Rightarrow> v)) m"

text \<open>The groups a fold of upserts builds.\<close>

definition grouped ::
  "('t \<Rightarrow> 'k) \<Rightarrow> 'v \<Rightarrow> ('t \<Rightarrow> 'v \<Rightarrow> 'v) \<Rightarrow> 't list \<Rightarrow> ('k \<times> 'v) list" where
  "grouped key init f ts =
     map (\<lambda>k. (k, foldl (\<lambda>v t. f t v) init (filter (\<lambda>t. key t = k) ts)))
         (first_seen (map key ts))"

text \<open>The rows of the category breakdown before they are sorted and cut to seven.\<close>

definition spending_rows :: "Transaction list \<Rightarrow> CategorySpending list" where
  "spending_rows ts =
     map (\<lambda>(index, name, a, c).
            \<lparr> cs_name = name, cs_amount = a,
              cs_percentage =
                (if categoryTotal (build_categoryMap ts) > 0
                 then (a / categoryTotal (build_categoryMap ts)) * 100 else 0),
              cs_color = colors ! (index mod length colors),
              cs_count = c \<rparr>)
         (enumerate 0 (build_categoryMap ts))"

subsection \<open>Calendar months and days\<close>

text \<open>A number in decimal with a fixed count of digits, padded with zeros on the left.\<close>

fun fixed_digits :: "nat \<Rightarrow> nat \<Rightarrow> string" where
  "fixed_digits 0 n = []"
| "fixed_digits (Suc w) n = fixed_digits w (n div 10) @ [digit_char (n mod 10)]"

text \<open>The calendar year and month index (0 to 11) the host reads from the date of a transaction.\<close>

definition yearMonth :: "DateHost \<Rightarrow> Transaction \<Rightarrow> int \<times> nat" where
  "yearMonth h t = (getFullYear h (date t), getMonth h (date t))"

text \<open>Chronological order of calendar months.\<close>

definition month_before :: "int \<times> nat \<Rightarrow> int \<times> nat \<Rightarrow> bool" where
  "month_before a b = (fst a < fst b \<or> (fst a = fst b \<and> snd a < snd b))"

text \<open>A month of a year from 1000 to 9999, the years whose decimal form has four digits.\<close>

definition four_digit_month :: "int \<times> nat \<Rightarrow> bool" where
  "four_digit_month ym = (1000 \<le> fst ym \<and> fst ym \<le> 9999 \<and> snd ym < 12)"

definition four_digit_years :: "DateHost \<Rightarrow> Transaction list \<Rightarrow> bool" where
  "four_digit_years h ts = (\<forall>t\<in>set ts. four_digit_month (yearMonth h t))"

text \<open>The key \<^verbatim>\<open>processMonthlyData\<close> builds for a calendar month.\<close>

definition ymKey :: "int \<times> nat \<Rightarrow> string" where
  "ymKey ym = String_int (fst ym) @ ''-'' @ padStart 2 (CHR ''0'') (String_nat (snd ym + 1))"

text \<open>The sums of the income and of the expense amounts that fall into one calendar month.\<close>

definition monthIncome :: "DateHost \<Rightarrow> Transaction list \<Rightarrow> int \<times> nat \<Rightarrow> rat" where
  "monthIncome h ts ym = sum_of_kind Income (filter (\<lambda>t. yearMonth h t = ym) ts)"

definition monthExpense :: "DateHost \<Rightarrow> Transaction list \<Rightarrow> int \<times> nat \<Rightarrow> rat" where
  "monthExpense h ts ym = sum_of_kind Expense (filter (\<lambda>t. yearMonth h t = ym) ts)"

text \<open>The keys that survive sorting and the cut to the last \<open>n\<close>.\<close>

definition retained :: "nat \<Rightarrow> 'a::linorder list \<Rightarrow> 'a list" where
  "retained n ks = slice_last n (sort_key (\<lambda>k. k) (first_seen ks))"

text \<open>
  The calendar day a timestamp string starts with, in the date-time string
  format of ECMAScript: \<^verbatim>\<open>YYYY-MM-DD\<close>, or \<^verbatim>\<open>+YYYYYY-MM-DD\<close> with an expanded
  year, which is what \<^verbatim>\<open>toISOString\<close> writes for the years after 9999.
\<close>

definition calendarDay :: "string \<Rightarrow> nat \<times> nat \<times> nat" where
  "calendarDay s =
     (if take 1 s = ''+''
      then (digits_value (take 6 (drop 1 s)),
            digits_value (take 2 (drop 8 s)),
            digits_value (take 2 (drop 11 s)))
      else (digits_value (take 4 s),
            digits_value (take 2 (drop 5 s)),
            digits_value (take 2 (drop 8 s))))"

text \<open>The text \<^verbatim>\<open>YYYY-MM-DD\<close> of a day with a four-digit year.\<close>

definition iso_day :: "nat \<times> nat \<times> nat \<Rightarrow> string" where
  "iso_day ymd =
     fixed_digits 4 (fst ymd) @ ''-'' @ fixed_digits 2 (fst (snd ymd)) @ ''-'' @
     fixed_digits 2 (snd (snd ymd))"

definition valid_day :: "nat \<times> nat \<times> nat \<Rightarrow> bool" where
  "valid_day ymd =
     (fst ymd \<le> 9999 \<and> 1 \<le> fst (snd ymd) \<and> fst (snd ymd) \<le> 12
      \<and> 1 \<le> snd (snd ymd) \<and> snd (snd ymd) \<le> 31)"

text \<open>
  A timestamp \<^verbatim>\<open>YYYY-MM-DDT...\<close> with a four-digit year: the format of the dates the
  store returns and \<^verbatim>\<open>toISOString\<close> writes for the years 0 to 9999.
\<close>

definition iso_timestamp :: "string \<Rightarrow> bool" where
  "iso_timestamp s =
     (valid_day (calendarDay s) \<and> take 11 s = iso_day (calendarDay s) @ ''T'')"

definition iso_dated :: "Transaction list \<Rightarrow> bool" where
  "iso_dated ts = (\<forall>t\<in>set ts. iso_timestamp (date t))"

text \<open>Chronological order of calendar days.\<close>

definition day_before :: "nat \<times> nat \<times> nat \<Rightarrow> nat \<times> nat \<times> nat \<Rightarrow> bool" where
  "day_before a b =
     (fst a < fst b
      \<or> (fst a = fst b \<and> (fst (snd a) < fst (snd b)
           \<or> (fst (snd a) = fst (snd b) \<and> snd (snd a) < snd (snd b)))))"

text \<open>The calendar day of a transaction and the summed expense amount of a day.\<close>

definition dayOf :: "Transaction \<Rightarrow> nat \<times> nat \<times> nat" where
  "dayOf t = calendarDay (date t)"

definition dayExpense :: "Transaction list \<Rightarrow> nat \<times> nat \<times> nat \<Rightarrow> rat" where
  "dayExpense ts d = (\<Sum>t\<leftarrow>filter (\<lambda>t. dayOf t = d) (expenses_of ts). amount t)"

subsection \<open>Concrete inputs\<close>

text \<open>A row with the given identifier, amount, kind, date and category name.\<close>

definition mk :: "string \<Rightarrow> rat \<Rightarrow> TxType \<Rightarrow> string \<Rightarrow> string option \<Rightarrow> Transaction" where
  "mk i a k d c =
     \<lparr> ident = i, amount = a, description = ''item'', txtype = k, date = d,
       categories = c, subcategories = None \<rparr>"

text \<open>The example of the specification: one income and two expenses on food.\<close>

definition salary_and_food :: "Transaction list" where
  "salary_and_food =
     [mk ''1'' 1000 Income ''2024-03-01T09:00:00+00:00'' (Some ''Salary''),
      mk ''2'' 300 Expense ''2024-03-02T12:30:00+00:00'' (Some ''Food''),
      mk ''3'' 200 Expense ''2024-03-02T19:45:00+00:00'' (Some ''Food'')]"

text \<open>Eight expenses of one unit each, in eight categories.\<close>

definition eight_categories :: "Transaction list" where
  "eight_categories =
     [mk ''1'' 1 Expense ''2024-01-01T00:00:00+00:00'' (Some ''A''),
      mk ''2'' 1 Expense ''2024-01-02T00:00:00+00:00'' (Some ''B''),
      mk ''3'' 1 Expense ''2024-01-03T00:00:00+00:00'' (Some ''C''),
      mk ''4'' 1 Expense ''2024-01-04T00:00:00+00:00'' (Some ''D''),
      mk ''5'' 1 Expense ''2024-01-05T00:00:00+00:00'' (Some ''E''),
      mk ''6'' 1 Expense ''2024-01-06T00:00:00+00:00'' (Some ''F''),
      mk ''7'' 1 Expense ''2024-01-07T00:00:00+00:00'' (Some ''G''),
      mk ''8'' 1 Expense ''2024-01-08T00:00:00+00:00'' (Some ''H'')]"

text \<open>A list without income whose only expense has amount zero.\<close>

definition free_lunch :: "Transaction list" where
  "free_lunch = [mk ''1'' 0 Expense ''2024-03-02T12:30:00+00:00'' (Some ''Food'')]"




text \<open>
  A host in the UTC time zone, for timestamps written in UTC: the local year and month
  are the ones the text shows.
\<close>

definition monthNames :: "string list" where
  "monthNames = [''Jan'', ''Feb'', ''Mar'', ''Apr'', ''May'', ''Jun'',
                 ''Jul'', ''Aug'', ''Sep'', ''Oct'', ''Nov'', ''Dec'']"

definition utcHost :: DateHost where
  "utcHost =
     \<lparr> getFullYear = (\<lambda>s. int (fst (calendarDay s))),
       getMonth = (\<lambda>s. fst (snd (calendarDay s)) - 1),
       shortMonth = (\<lambda>s. if valid_day (calendarDay s) \<and> s = iso_day (calendarDay s)
                           then monthNames ! (fst (snd (calendarDay s)) - 1)
                           else ''Invalid Date'') \<rparr>"

text \<open>Two expenses, on the last day of the year 9999 and on the first day of the year 10000.\<close>

definition turn_of_y10k :: "Transaction list" where
  "turn_of_y10k =
     [mk ''1'' 30 Expense ''9999-12-31T10:00:00.000Z'' (Some ''Food''),
      mk ''2'' 70 Expense ''+010000-01-01T10:00:00.000Z'' (Some ''Food'')]"

subsection \<open>Effects of interest and a small store\<close>

text \<open>The calls of the remote store among the effects, in order.\<close>

definition calls :: "Effect list \<Rightarrow> Request list" where
  "calls effects = concat (map (\<lambda>e. case e of Call r \<Rightarrow> [r] | _ \<Rightarrow> []) effects)"

text \<open>Two expense categories with one subcategory each, and a store that serves them.\<close>

definition demo_categories :: "Category list" where
  "demo_categories =
     [\<lparr> category_ident = ''A'', category_name = ''Food'', category_type = Expense \<rparr>,
      \<lparr> category_ident = ''B'', category_name = ''Transport'', category_type = Expense \<rparr>]"

definition demo_subcategories :: "Subcategory list" where
  "demo_subcategories =
     [\<lparr> sub_ident = ''a1'', sub_name = ''Groceries'', sub_category_id = ''A'' \<rparr>,
      \<lparr> sub_ident = ''b1'', sub_name = ''Bus'', sub_category_id = ''B'' \<rparr>]"

definition demo_remote :: Remote where
  "demo_remote =
     \<lparr> subcategoriesOf =
         (\<lambda>c. Reply (Some (filter (\<lambda>sub. sub_category_id sub = c) demo_subcategories)) None),
       respond = (\<lambda>r. Succeeded),
       now = ''2024-03-02T12:00:00.000Z'' \<rparr>"

text \<open>The same store when it rejects every write.\<close>

definition refusing_remote :: Remote where
  "refusing_remote = demo_remote\<lparr> respond := (\<lambda>r. Failed ''permission denied'') \<rparr>"

text \<open>The form opened for a new transaction.\<close>

definition create_props :: Props where
  "create_props =
     \<lparr> isEditMode = False, transactionId = [], param_categoryName = [],
       param_subcategoryName = [] \<rparr>"

text \<open>
  The user picks the category Food and its subcategory Groceries, then changes the
  category to Transport, fills in the amount and the description, and submits.
\<close>

definition switch_category :: "FormEvent list" where
  "switch_category =
     [PickCategory ''A'', PickSubcategory ''a1'', PickCategory ''B'',
      TypeAmount ''12.50'', TypeDescription ''Bus ticket'', PressSubmit]"

text \<open>A form with the amount \<^verbatim>\<open>-5\<close> and everything else in order.\<close>

definition minus_five :: FormState where
  "minus_five =
     (initialState demo_remote demo_categories)
       \<lparr> form_amount := ''-5'', form_description := ''Lunch'', selectedCategory := ''A'' \<rparr>"

text \<open>A valid form without a subcategory, the description typed with blanks around it.\<close>

definition lunch_form :: FormState where
  "lunch_form =
     (initialState demo_remote demo_categories)
       \<lparr> form_amount := ''12.50'', form_description := ''  Lunch  '', selectedCategory := ''A'' \<rparr>"

text \<open>
  An income of 0.1, an expense of 0.3 and an income of 0.2, each amount the
  double nearest to the decimal number.
\<close>

definition tenths :: "Transaction list" where
  "tenths =
     [mk ''1'' (round_double (1 / 10)) Income ''2024-03-01T09:00:00+00:00'' (Some ''Gift''),
      mk ''2'' (round_double (3 / 10)) Expense ''2024-03-02T09:00:00+00:00'' (Some ''Food''),
      mk ''3'' (round_double (1 / 5)) Income ''2024-03-03T09:00:00+00:00'' (Some ''Gift'')]"

section \<open>Verification\<close>

subsection \<open>Sums of a kind\<close>

lemma foldl_add_amount:
  "foldl (\<lambda>sum t. sum + amount t) a ts = a + (\<Sum>t\<leftarrow>ts. amount t)"
  by (induction ts arbitrary: a) simp_all

lemma reduce_amount_sum_list: "reduce_amount ts = (\<Sum>t\<leftarrow>ts. amount t)"
  by (simp add: reduce_amount_def foldl_add_amount)

lemma reduce_amount_kind:
  "reduce_amount (filter (\<lambda>t. txtype t = k) ts) = sum_of_kind k ts"
  by (simp add: reduce_amount_sum_list sum_of_kind_def)

lemma balance_fold_from:
  "foldl (\<lambda>total transaction.
            if txtype transaction = Income
            then total + amount transaction
            else total - amount transaction) a ts
   = a + sum_of_kind Income ts - sum_of_kind Expense ts"
proof (induction ts arbitrary: a)
  case Nil
  show ?case by (simp add: sum_of_kind_def)
next
  case (Cons t ts)
  show ?case
  proof (cases "txtype t")
    case Income
    then show ?thesis using Cons.IH [of "a + amount t"]
      by (simp add: sum_of_kind_def)
  next
    case Expense
    then show ?thesis using Cons.IH [of "a - amount t"]
      by (simp add: sum_of_kind_def)
  qed
qed

lemma balance_exact:
  "getTotalBalance ts = sum_of_kind Income ts - sum_of_kind Expense ts
   \<and> totalBalance (fetchDashboardData stats (Reply (Some ts) None))
       = sum_of_kind Income ts - sum_of_kind Expense ts"
  by (simp add: getTotalBalance_def balance_fold_from fetchDashboardData_def
        reduce_amount_kind Let_def)

lemma signed_fold_exact:
  "exact_on rnd (signed_partials a ts) \<Longrightarrow>
   foldl (\<lambda>total transaction.
            if txtype transaction = Income
            then rnd (total + amount transaction)
            else rnd (total - amount transaction)) a ts
   = a + sum_of_kind Income ts - sum_of_kind Expense ts"
proof (induction ts arbitrary: a)
  case Nil
  show ?case by (simp add: sum_of_kind_def)
next
  case (Cons t ts)
  show ?case
  proof (cases "txtype t")
    case Income
    with Cons.prems have r: "rnd (a + amount t) = a + amount t"
      and rest: "exact_on rnd (signed_partials (a + amount t) ts)"
      by (simp_all add: exact_on_def)
    show ?thesis using Income r Cons.IH [OF rest] by (simp add: sum_of_kind_def)
  next
    case Expense
    with Cons.prems have r: "rnd (a - amount t) = a - amount t"
      and rest: "exact_on rnd (signed_partials (a - amount t) ts)"
      by (simp_all add: exact_on_def)
    show ?thesis using Expense r Cons.IH [OF rest] by (simp add: sum_of_kind_def)
  qed
qed

lemma sum_fold_exact:
  "exact_on rnd (sum_partials a ts) \<Longrightarrow>
   foldl (\<lambda>sum t. rnd (sum + amount t)) a ts = a + (\<Sum>t\<leftarrow>ts. amount t)"
proof (induction ts arbitrary: a)
  case Nil
  show ?case by simp
next
  case (Cons t ts)
  then have r: "rnd (a + amount t) = a + amount t"
    and rest: "exact_on rnd (sum_partials (a + amount t) ts)"
    by (simp_all add: exact_on_def)
  show ?case using r Cons.IH [OF rest] by simp
qed

lemma exact_on_append: "exact_on rnd (xs @ ys) \<longleftrightarrow> exact_on rnd xs \<and> exact_on rnd ys"
  by (auto simp: exact_on_def)

text \<open>
  The search for the exponent finds it for every number from \<open>2\<^sup>-\<^sup>2\<^sup>2\<^sup>0\<^sup>0\<close> to
  below \<open>2\<^sup>2\<^sup>2\<^sup>0\<^sup>1\<close>, a range that contains every double except zero.
\<close>

lemma ilog2_aux_bounds:
  fixes x :: rat
  assumes "1 \<le> x * 2 ^ n" and "x < 2 ^ Suc n"
  shows "power_int 2 (ilog2_aux n x) \<le> x \<and> x < power_int 2 (ilog2_aux n x + 1)"
  using assms
proof (induction n arbitrary: x)
  case 0
  then show ?case by simp
next
  case (Suc n)
  show ?case
  proof (cases "x < 1")
    case True
    have a: "1 \<le> (2 * x) * 2 ^ n" using Suc.prems(1) by (simp add: mult_ac)
    have "(2::rat) \<le> 2 ^ Suc n" by simp
    then have b: "2 * x < 2 ^ Suc n" using True by linarith
    from Suc.IH [OF a b] have
      lo: "power_int 2 (ilog2_aux n (2 * x)) \<le> 2 * x" and
      hi: "2 * x < power_int 2 (ilog2_aux n (2 * x) + 1)" by simp_all
    have e: "ilog2_aux (Suc n) x = ilog2_aux n (2 * x) - 1" using True by simp
    have p1: "power_int (2::rat) (ilog2_aux n (2 * x) - 1) = power_int 2 (ilog2_aux n (2 * x)) / 2"
      by (simp add: power_int_diff)
    have p2: "power_int (2::rat) (ilog2_aux n (2 * x) + 1) = power_int 2 (ilog2_aux n (2 * x)) * 2"
      by (simp add: power_int_add)
    show ?thesis unfolding e using lo hi p1 p2 by simp
  next
    case False
    show ?thesis
    proof (cases "2 \<le> x")
      case True
      have a: "1 \<le> (x / 2) * 2 ^ n"
      proof -
        have "(1::rat) \<le> 2 ^ n" by simp
        moreover have "1 \<le> x / 2" using True by simp
        ultimately show ?thesis by (metis mult_mono' mult_1 zero_le_one)
      qed
      have b: "x / 2 < 2 ^ Suc n" using Suc.prems(2) by simp
      from Suc.IH [OF a b] have
        lo: "power_int 2 (ilog2_aux n (x / 2)) \<le> x / 2" and
        hi: "x / 2 < power_int 2 (ilog2_aux n (x / 2) + 1)" by simp_all
      have e: "ilog2_aux (Suc n) x = ilog2_aux n (x / 2) + 1" using True False by simp
      have p1: "power_int (2::rat) (ilog2_aux n (x / 2) + 1) = power_int 2 (ilog2_aux n (x / 2)) * 2"
        by (simp add: power_int_add)
      have p2: "power_int (2::rat) (ilog2_aux n (x / 2) + 1 + 1) = power_int 2 (ilog2_aux n (x / 2) + 1) * 2"
        by (simp add: power_int_add)
      show ?thesis unfolding e using lo hi p1 p2 by simp
    next
      case F2: False
      then have "ilog2_aux (Suc n) x = 0" using False by simp
      then show ?thesis using False F2 by simp
    qed
  qed
qed

lemma ilog2_bounds:
  assumes "1 \<le> \<bar>x\<bar> * 2 ^ 2200" and "\<bar>x\<bar> < 2 ^ 2201"
  shows "power_int 2 (ilog2 x) \<le> \<bar>x\<bar> \<and> \<bar>x\<bar> < power_int 2 (ilog2 x + 1)"
  unfolding ilog2_def using ilog2_aux_bounds [of "\<bar>x\<bar>" 2200] assms by simp

lemma ilog2_aux_numeral:
  "ilog2_aux (numeral k) x =
     (if x < 1 then ilog2_aux (pred_numeral k) (2 * x) - 1
      else if 2 \<le> x then ilog2_aux (pred_numeral k) (x / 2) + 1
      else 0)"
  by (simp add: numeral_eq_Suc)

lemma floor_rat_numeral: "\<lfloor>(numeral a :: rat) / numeral b\<rfloor> = numeral a div numeral b"
  by (metis floor_divide_of_int_eq of_int_numeral)

lemma floor_rat_neg_numeral: "\<lfloor>- ((numeral a :: rat) / numeral b)\<rfloor> = - numeral a div numeral b"
  by (metis divide_minus_left floor_divide_of_int_eq of_int_neg_numeral of_int_numeral)

lemmas round_eval =
  round_double_def ilog2_def ilog2_aux_numeral round_half_even_def Let_def
  floor_rat_numeral floor_rat_neg_numeral

lemma double_tenth: "round_double (1 / 10) = 3602879701896397 / 2 ^ 55"
  by (simp add: round_eval)

lemma double_fifth: "round_double (1 / 5) = 3602879701896397 / 2 ^ 54"
  by (simp add: round_eval)

lemma double_three_tenths: "round_double (3 / 10) = 5404319552844595 / 2 ^ 54"
  by (simp add: round_eval)

lemma tenths_values:
  "tenths =
     [mk ''1'' (3602879701896397 / 2 ^ 55) Income ''2024-03-01T09:00:00+00:00'' (Some ''Gift''),
      mk ''2'' (5404319552844595 / 2 ^ 54) Expense ''2024-03-02T09:00:00+00:00'' (Some ''Food''),
      mk ''3'' (3602879701896397 / 2 ^ 54) Income ''2024-03-03T09:00:00+00:00'' (Some ''Gift'')]"
  by (simp add: tenths_def double_tenth double_fifth double_three_tenths)

text \<open>
  C1, as stated, fails.  The two screens add the same amounts in different
  orders, and the additions of doubles round.  For an income of 0.1, an
  expense of 0.3 and an income of 0.2 the list computes (0.1 - 0.3) + 0.2,
  which is \<open>2\<^sup>-\<^sup>5\<^sup>5\<close>, and the dashboard (0.1 + 0.2) - 0.3, which is \<open>2\<^sup>-\<^sup>5\<^sup>4\<close>; the
  exact sum of the three doubles is \<open>2\<^sup>-\<^sup>5\<^sup>5\<close>.
\<close>

theorem C1_balance_counterexample:
  "getTotalBalance_rounded round_double tenths = 1 / 2 ^ 55
   \<and> totalBalance_rounded round_double tenths = 1 / 2 ^ 54
   \<and> sum_of_kind Income tenths - sum_of_kind Expense tenths = 1 / 2 ^ 55"
  by (simp add: tenths_values mk_def getTotalBalance_rounded_def totalBalance_rounded_def
        reduce_amount_rounded_def sum_of_kind_def round_eval)

text \<open>
  C1, amended.  In exact arithmetic the balance of the List Controller and the
  \<^verbatim>\<open>totalBalance\<close> of the Dashboard Controller both equal the sum of the income
  amounts minus the sum of the expense amounts.  With rounded additions each
  of them equals that difference whenever none of its own additions and
  subtractions rounds, that is, whenever the rounding leaves the exact
  intermediate values as they are.
\<close>

theorem C1_balance_amended:
  "getTotalBalance ts = sum_of_kind Income ts - sum_of_kind Expense ts
   \<and> totalBalance (fetchDashboardData stats (Reply (Some ts) None))
       = sum_of_kind Income ts - sum_of_kind Expense ts
   \<and> (exact_on rnd (signed_partials 0 ts) \<longrightarrow>
        getTotalBalance_rounded rnd ts = sum_of_kind Income ts - sum_of_kind Expense ts)
   \<and> (exact_on rnd (sum_partials 0 (filter (\<lambda>t. txtype t = Income) ts)
                     @ sum_partials 0 (filter (\<lambda>t. txtype t = Expense) ts)
                     @ [sum_of_kind Income ts - sum_of_kind Expense ts]) \<longrightarrow>
        totalBalance_rounded rnd ts = sum_of_kind Income ts - sum_of_kind Expense ts)"
proof (intro conjI impI)
  show "getTotalBalance ts = sum_of_kind Income ts - sum_of_kind Expense ts"
    using balance_exact by blast
  show "totalBalance (fetchDashboardData stats (Reply (Some ts) None))
       = sum_of_kind Income ts - sum_of_kind Expense ts"
    using balance_exact by blast
next
  assume "exact_on rnd (signed_partials 0 ts)"
  then show "getTotalBalance_rounded rnd ts = sum_of_kind Income ts - sum_of_kind Expense ts"
    using signed_fold_exact [of rnd 0 ts] by (simp add: getTotalBalance_rounded_def)
next
  assume a: "exact_on rnd (sum_partials 0 (filter (\<lambda>t. txtype t = Income) ts)
                     @ sum_partials 0 (filter (\<lambda>t. txtype t = Expense) ts)
                     @ [sum_of_kind Income ts - sum_of_kind Expense ts])"
  then have i: "reduce_amount_rounded rnd (filter (\<lambda>t. txtype t = Income) ts) = sum_of_kind Income ts"
    using sum_fold_exact [of rnd 0 "filter (\<lambda>t. txtype t = Income) ts"]
    by (simp add: exact_on_append reduce_amount_rounded_def sum_of_kind_def)
  from a have e: "reduce_amount_rounded rnd (filter (\<lambda>t. txtype t = Expense) ts) = sum_of_kind Expense ts"
    using sum_fold_exact [of rnd 0 "filter (\<lambda>t. txtype t = Expense) ts"]
    by (simp add: exact_on_append reduce_amount_rounded_def sum_of_kind_def)
  from a have "rnd (sum_of_kind Income ts - sum_of_kind Expense ts)
        = sum_of_kind Income ts - sum_of_kind Expense ts"
    by (simp add: exact_on_append exact_on_def)
  then show "totalBalance_rounded rnd ts = sum_of_kind Income ts - sum_of_kind Expense ts"
    by (simp add: totalBalance_rounded_def i e)
qed

theorem C1_balance_amended_witness:
  "exact_on round_double (signed_partials 0 salary_and_food)
   \<and> getTotalBalance_rounded round_double salary_and_food = 500
   \<and> exact_on round_double
        (sum_partials 0 (filter (\<lambda>t. txtype t = Income) salary_and_food)
         @ sum_partials 0 (filter (\<lambda>t. txtype t = Expense) salary_and_food)
         @ [sum_of_kind Income salary_and_food - sum_of_kind Expense salary_and_food])
   \<and> totalBalance_rounded round_double salary_and_food = 500"
proof -
  have s: "sum_of_kind Income salary_and_food - sum_of_kind Expense salary_and_food = 500"
    by (simp add: salary_and_food_def mk_def sum_of_kind_def)
  have h1: "exact_on round_double (signed_partials 0 salary_and_food)"
    by (simp add: salary_and_food_def mk_def exact_on_def round_eval)
  have h2: "exact_on round_double
        (sum_partials 0 (filter (\<lambda>t. txtype t = Income) salary_and_food)
         @ sum_partials 0 (filter (\<lambda>t. txtype t = Expense) salary_and_food)
         @ [sum_of_kind Income salary_and_food - sum_of_kind Expense salary_and_food])"
    unfolding s by (simp add: salary_and_food_def mk_def exact_on_def round_eval)
  note inst = C1_balance_amended [of salary_and_food _ round_double]
  from inst h1 s have "getTotalBalance_rounded round_double salary_and_food = 500" by simp
  moreover from inst h2 s have "totalBalance_rounded round_double salary_and_food = 500" by simp
  ultimately show ?thesis using h1 h2 by blast
qed

subsection \<open>Insertion-ordered maps and grouping\<close>

lemma first_seen_Nil [simp]: "first_seen [] = []"
  by (simp add: first_seen_def)

lemma first_seen_snoc:
  "first_seen (xs @ [x]) = (if x \<in> set xs then first_seen xs else first_seen xs @ [x])"
  by (simp add: first_seen_def)

lemma set_first_seen [simp]: "set (first_seen xs) = set xs"
  by (simp add: first_seen_def)

lemma distinct_first_seen [simp]: "distinct (first_seen xs)"
  by (simp add: first_seen_def)

lemma length_first_seen: "length (first_seen xs) = card (set xs)"
  by (simp add: first_seen_def length_remdups_card_conv)

lemma map_of_tabulate:
  "map_of (map (\<lambda>k. (k, g k)) ks) k = (if k \<in> set ks then Some (g k) else None)"
  by (induction ks) auto

lemma Map_set_fresh:
  "k \<notin> fst ` set m \<Longrightarrow> Map_set k v m = m @ [(k, v)]"
  by (induction m) auto

lemma Map_set_tabulate:
  "distinct ks \<Longrightarrow> k \<in> set ks \<Longrightarrow>
   Map_set k v (map (\<lambda>k. (k, g k)) ks) = map (\<lambda>k'. (k', if k' = k then v else g k')) ks"
proof (induction ks)
  case Nil
  then show ?case by simp
next
  case (Cons a ks)
  show ?case
  proof (cases "a = k")
    case True
    with Cons.prems have "k \<notin> set ks" by simp
    then have "map (\<lambda>k. (k, g k)) ks = map (\<lambda>k'. (k', if k' = k then v else g k')) ks"
      by (intro map_cong) auto
    with True show ?thesis by simp
  next
    case False
    with Cons show ?thesis by simp
  qed
qed

lemma foldl_upsert_grouped:
  "foldl (\<lambda>m t. upsert (key t) init (f t) m) [] ts = grouped key init f ts"
proof (induction ts rule: rev_induct)
  case Nil
  show ?case by (simp add: grouped_def)
next
  case (snoc t ts)
  let ?G = "\<lambda>ts k. foldl (\<lambda>v t. f t v) init (filter (\<lambda>t. key t = k) ts)"
  let ?ks = "first_seen (map key ts)"
  have m: "foldl (\<lambda>m t. upsert (key t) init (f t) m) [] ts = map (\<lambda>k. (k, ?G ts k)) ?ks"
    using snoc.IH by (simp add: grouped_def)
  show ?case
  proof (cases "key t \<in> set (map key ts)")
    case True
    have look: "map_of (map (\<lambda>k. (k, ?G ts k)) ?ks) (key t) = Some (?G ts (key t))"
      using True by (simp add: map_of_tabulate)
    have "upsert (key t) init (f t) (map (\<lambda>k. (k, ?G ts k)) ?ks)
          = map (\<lambda>k'. (k', if k' = key t then f t (?G ts (key t)) else ?G ts k')) ?ks"
      unfolding upsert_def look using True
      by (simp add: Map_set_tabulate)
    also have "\<dots> = map (\<lambda>k. (k, ?G (ts @ [t]) k)) ?ks"
      by (intro map_cong) auto
    finally show ?thesis using True m
      by (simp add: grouped_def first_seen_snoc)
  next
    case False
    have look: "map_of (map (\<lambda>k. (k, ?G ts k)) ?ks) (key t) = None"
      using False by (simp add: map_of_tabulate)
    have nofilter: "filter (\<lambda>u. key u = key t) ts = []"
      using False by (force simp: filter_empty_conv image_iff)
    have fresh: "key t \<notin> fst ` set (map (\<lambda>k. (k, ?G ts k)) ?ks)"
      using False by (auto simp: image_iff)
    have step: "upsert (key t) init (f t) (map (\<lambda>k. (k, ?G ts k)) ?ks)
          = map (\<lambda>k. (k, ?G ts k)) ?ks @ [(key t, f t init)]"
      unfolding upsert_def look using Map_set_fresh [OF fresh] by simp
    have same: "map (\<lambda>k. (k, ?G ts k)) ?ks = map (\<lambda>k. (k, ?G (ts @ [t]) k)) ?ks"
      using False by (intro map_cong) auto
    have "foldl (\<lambda>m t. upsert (key t) init (f t) m) [] (ts @ [t])
          = map (\<lambda>k. (k, ?G ts k)) ?ks @ [(key t, f t init)]"
      using m step by simp
    also have "\<dots> = map (\<lambda>k. (k, ?G (ts @ [t]) k)) ?ks @ [(key t, ?G (ts @ [t]) (key t))]"
      using same nofilter by simp
    also have "\<dots> = grouped key init f (ts @ [t])"
      using False by (simp add: grouped_def first_seen_snoc)
    finally show ?thesis .
  qed
qed

lemma map_of_Map_set: "map_of (Map_set k v m) k' = (if k' = k then Some v else map_of m k')"
  by (induction m) auto

lemma Map_set_twice: "Map_set k v (Map_set k w m) = Map_set k v m"
  by (induction m) auto

lemma monthly_step_upsert:
  "monthly_step h m t =
     upsert (monthKey h t) (0, 0)
       (\<lambda>v. if txtype t = Income then (fst v + amount t, snd v) else (fst v, snd v + amount t)) m"
  by (cases "map_of m (monthKey h t)")
     (auto simp: monthly_step_def upsert_def Map_has_def Map_get_def Let_def
        map_of_Map_set Map_set_twice split: prod.splits)

lemma category_step_upsert:
  "category_step m t =
     upsert (categoryName t) (0, 0) (\<lambda>v. (fst v + amount t, snd v + 1)) m"
  by (cases "map_of m (categoryName t)")
     (auto simp: category_step_def upsert_def Map_has_def Map_get_def Let_def
        map_of_Map_set Map_set_twice split: prod.splits)

lemma daily_step_upsert:
  "daily_step m t = upsert (dateKey t) 0 (\<lambda>v. v + amount t) m"
  by (cases "map_of m (dateKey t)")
     (auto simp: daily_step_def upsert_def get_or_zero_def Map_get_def)


lemma foldl_plus_amount: "foldl (\<lambda>v t. v + amount t) a g = a + (\<Sum>t\<leftarrow>g. amount t)"
  by (induction g arbitrary: a) simp_all

lemma foldl_amount_count:
  "foldl (\<lambda>v t. (fst v + amount t, Suc (snd v))) (a, c) g
     = (a + (\<Sum>t\<leftarrow>g. amount t), c + length g)"
  by (induction g arbitrary: a c) simp_all

lemma foldl_income_expense:
  "foldl (\<lambda>v t. if txtype t = Income then (fst v + amount t, snd v) else (fst v, snd v + amount t))
     (a, b) g
   = (a + sum_of_kind Income g, b + sum_of_kind Expense g)"
proof (induction g arbitrary: a b)
  case Nil
  show ?case by (simp add: sum_of_kind_def)
next
  case (Cons t g)
  show ?case by (cases "txtype t") (simp_all add: Cons.IH sum_of_kind_def)
qed

lemma build_monthlyMap_closed:
  "build_monthlyMap h ts =
     map (\<lambda>k. (k, sum_of_kind Income (filter (\<lambda>t. monthKey h t = k) ts),
                   sum_of_kind Expense (filter (\<lambda>t. monthKey h t = k) ts)))
         (first_seen (map (monthKey h) ts))"
proof -
  have "build_monthlyMap h ts
        = grouped (monthKey h) (0, 0)
            (\<lambda>t v. if txtype t = Income then (fst v + amount t, snd v) else (fst v, snd v + amount t)) ts"
    unfolding build_monthlyMap_def monthly_step_upsert [abs_def]
    by (rule foldl_upsert_grouped)
  then show ?thesis
    by (simp add: grouped_def foldl_income_expense)
qed

lemma build_categoryMap_closed:
  "build_categoryMap ts =
     map (\<lambda>k. (k, (\<Sum>t\<leftarrow>filter (\<lambda>t. categoryName t = k) (expenses_of ts). amount t),
                   length (filter (\<lambda>t. categoryName t = k) (expenses_of ts))))
         (first_seen (map categoryName (expenses_of ts)))"
proof -
  have "build_categoryMap ts
        = grouped categoryName (0, 0) (\<lambda>t v. (fst v + amount t, snd v + 1)) (expenses_of ts)"
    unfolding build_categoryMap_def expenses_of_def category_step_upsert [abs_def]
    by (rule foldl_upsert_grouped)
  then show ?thesis
    by (simp add: grouped_def foldl_amount_count)
qed

lemma build_dailyMap_closed:
  "build_dailyMap ts =
     map (\<lambda>k. (k, (\<Sum>t\<leftarrow>filter (\<lambda>t. dateKey t = k) (expenses_of ts). amount t)))
         (first_seen (map dateKey (expenses_of ts)))"
proof -
  have "build_dailyMap ts
        = grouped dateKey 0 (\<lambda>t v. v + amount t) (expenses_of ts)"
    unfolding build_dailyMap_def expenses_of_def daily_step_upsert [abs_def]
    by (rule foldl_upsert_grouped)
  then show ?thesis
    by (simp add: grouped_def foldl_plus_amount)
qed


lemma sum_list_delta:
  "distinct ks \<Longrightarrow> (\<Sum>k\<leftarrow>ks. if a = k then c else (0::rat)) = (if a \<in> set ks then c else 0)"
  by (induction ks) auto

lemma sum_list_groups:
  fixes f :: "'t \<Rightarrow> rat"
  assumes "distinct ks" and "key ` set xs \<subseteq> set ks"
  shows "(\<Sum>k\<leftarrow>ks. \<Sum>x\<leftarrow>filter (\<lambda>x. key x = k) xs. f x) = (\<Sum>x\<leftarrow>xs. f x)"
  using assms(2)
proof (induction xs)
  case Nil
  show ?case by simp
next
  case (Cons x xs)
  have "(\<Sum>k\<leftarrow>ks. \<Sum>y\<leftarrow>filter (\<lambda>y. key y = k) (x # xs). f y)
        = (\<Sum>k\<leftarrow>ks. (if key x = k then f x else 0) + (\<Sum>y\<leftarrow>filter (\<lambda>y. key y = k) xs. f y))"
    by (intro arg_cong [where f = sum_list] map_cong) auto
  also have "\<dots> = (\<Sum>k\<leftarrow>ks. if key x = k then f x else 0)
                    + (\<Sum>k\<leftarrow>ks. \<Sum>y\<leftarrow>filter (\<lambda>y. key y = k) xs. f y)"
    by (simp add: sum_list_addf)
  also have "\<dots> = f x + (\<Sum>y\<leftarrow>xs. f y)"
    using Cons assms(1) by (simp add: sum_list_delta)
  finally show ?case by simp
qed

lemma foldl_plus_fst:
  "foldl (\<lambda>sum cat. sum + fst cat) (a::rat) xs = a + (\<Sum>x\<leftarrow>xs. fst x)"
  by (induction xs arbitrary: a) simp_all

lemma categoryTotal_build:
  "categoryTotal (build_categoryMap ts) = sum_of_kind Expense ts"
proof -
  have "categoryTotal (build_categoryMap ts)
        = (\<Sum>k\<leftarrow>first_seen (map categoryName (expenses_of ts)).
             \<Sum>t\<leftarrow>filter (\<lambda>t. categoryName t = k) (expenses_of ts). amount t)"
    by (simp add: categoryTotal_def build_categoryMap_closed foldl_plus_fst comp_def)
  also have "\<dots> = (\<Sum>t\<leftarrow>expenses_of ts. amount t)"
    by (rule sum_list_groups) simp_all
  finally show ?thesis by (simp add: sum_of_kind_def expenses_of_def)
qed

subsection \<open>Category breakdown\<close>

lemma sum_list_insort_key:
  fixes p :: "'a \<Rightarrow> rat"
  shows "(\<Sum>y\<leftarrow>insort_key f x xs. p y) = p x + (\<Sum>y\<leftarrow>xs. p y)"
  by (induction xs) simp_all

lemma sum_list_sort_key:
  fixes p :: "'a \<Rightarrow> rat"
  shows "(\<Sum>y\<leftarrow>sort_key f xs. p y) = (\<Sum>y\<leftarrow>xs. p y)"
  by (induction xs) (simp_all add: sum_list_insort_key)

lemma processCategoryData_rows:
  "processCategoryData ts = take 7 (sort_key (\<lambda>c. - cs_amount c) (spending_rows ts))"
  by (simp add: processCategoryData_def spending_rows_def Let_def)

lemma length_spending_rows:
  "length (spending_rows ts) = card (categoryName ` set (expenses_of ts))"
  by (simp add: spending_rows_def build_categoryMap_closed length_first_seen)

lemma percentage_spending_rows:
  "map cs_percentage (spending_rows ts)
   = map (\<lambda>e. if sum_of_kind Expense ts > 0
               then (fst (snd e) / sum_of_kind Expense ts) * 100 else 0)
         (build_categoryMap ts)"
proof -
  have "map cs_percentage (spending_rows ts)
        = map ((\<lambda>e. if sum_of_kind Expense ts > 0
                      then (fst (snd e) / sum_of_kind Expense ts) * 100 else 0) \<circ> snd)
              (enumerate 0 (build_categoryMap ts))"
    unfolding spending_rows_def map_map
    by (intro map_cong) (auto simp: categoryTotal_build)
  also have "\<dots> = map (\<lambda>e. if sum_of_kind Expense ts > 0
                      then (fst (snd e) / sum_of_kind Expense ts) * 100 else 0)
              (map snd (enumerate 0 (build_categoryMap ts)))"
    by (simp only: map_map)
  finally show ?thesis by (simp only: map_snd_enumerate)
qed

lemma sum_amount_build_categoryMap:
  "(\<Sum>e\<leftarrow>build_categoryMap ts. fst (snd e)) = sum_of_kind Expense ts"
  using categoryTotal_build [of ts] by (simp add: categoryTotal_def foldl_plus_fst comp_def)

lemma percentages_all_rows:
  assumes "0 < sum_of_kind Expense ts"
  shows "(\<Sum>c\<leftarrow>spending_rows ts. cs_percentage c) = 100"
proof -
  let ?T = "sum_of_kind Expense ts"
  have "(\<Sum>c\<leftarrow>spending_rows ts. cs_percentage c)
        = (\<Sum>e\<leftarrow>build_categoryMap ts. fst (snd e) * (100 / ?T))"
    unfolding percentage_spending_rows using assms by simp
  also have "\<dots> = (\<Sum>e\<leftarrow>build_categoryMap ts. fst (snd e)) * (100 / ?T)"
    by (rule sum_list_mult_const)
  also have "\<dots> = 100"
    using assms by (simp add: sum_amount_build_categoryMap)
  finally show ?thesis .
qed

text \<open>
  C2, as stated, fails.  The breakdown keeps the seven largest groups and
  drops the rest without an ``other'' row, so with eight categories of one
  unit each the total expense is positive and the percentages of the rows
  that remain sum to 87.5.
\<close>

theorem C2_percentages_counterexample:
  "0 < sum_of_kind Expense eight_categories
   \<and> sum_list (map cs_percentage (processCategoryData eight_categories)) = 175 / 2"
  by code_simp

text \<open>
  C2, amended.  When the total expense is positive and the expenses fall into
  at most seven distinct category names, the percentages of the category
  breakdown sum to 100; when the total expense is zero, every percentage of
  the breakdown is 0.
\<close>

theorem C2_percentages_amended:
  "(0 < sum_of_kind Expense ts \<and> card (categoryName ` set (expenses_of ts)) \<le> 7
      \<longrightarrow> sum_list (map cs_percentage (processCategoryData ts)) = 100)
   \<and> (sum_of_kind Expense ts = 0
      \<longrightarrow> (\<forall>c\<in>set (processCategoryData ts). cs_percentage c = 0))"
proof (intro conjI impI)
  assume a: "0 < sum_of_kind Expense ts \<and> card (categoryName ` set (expenses_of ts)) \<le> 7"
  then have "length (sort_key (\<lambda>c. - cs_amount c) (spending_rows ts)) \<le> 7"
    by (simp add: length_spending_rows)
  then have "processCategoryData ts = sort_key (\<lambda>c. - cs_amount c) (spending_rows ts)"
    unfolding processCategoryData_rows by (rule take_all)
  then show "sum_list (map cs_percentage (processCategoryData ts)) = 100"
    using a percentages_all_rows [of ts] by (simp add: sum_list_sort_key)
next
  assume z: "sum_of_kind Expense ts = 0"
  show "\<forall>c\<in>set (processCategoryData ts). cs_percentage c = 0"
  proof
    fix c assume "c \<in> set (processCategoryData ts)"
    then have "c \<in> set (spending_rows ts)"
      unfolding processCategoryData_rows by (auto dest: in_set_takeD)
    then have "cs_percentage c \<in> set (map cs_percentage (spending_rows ts))"
      by simp
    then show "cs_percentage c = 0"
      unfolding percentage_spending_rows using z by auto
  qed
qed

theorem C2_percentages_amended_witness:
  "0 < sum_of_kind Expense salary_and_food
   \<and> card (categoryName ` set (expenses_of salary_and_food)) \<le> 7
   \<and> sum_list (map cs_percentage (processCategoryData salary_and_food)) = 100
   \<and> sum_of_kind Expense free_lunch = 0
   \<and> cs_percentage (hd (processCategoryData free_lunch)) = 0"
proof -
  have h1: "0 < sum_of_kind Expense salary_and_food
            \<and> card (categoryName ` set (expenses_of salary_and_food)) \<le> 7"
    by code_simp
  have h2: "sum_of_kind Expense free_lunch = 0"
    by code_simp
  have ne: "hd (processCategoryData free_lunch) \<in> set (processCategoryData free_lunch)"
    by code_simp
  from C2_percentages_amended [of salary_and_food] h1
  have "sum_list (map cs_percentage (processCategoryData salary_and_food)) = 100"
    by blast
  moreover from C2_percentages_amended [of free_lunch] h2 ne
  have "cs_percentage (hd (processCategoryData free_lunch)) = 0"
    by blast
  ultimately show ?thesis using h1 h2 by blast
qed

subsection \<open>Top category and savings rate\<close>






lemma categoryTotalOf_exact:
  "categoryTotalOf (\<lambda>x. x) ts c
     = (\<Sum>t\<leftarrow>filter (\<lambda>t. countedUnder t = c) (expenses_of ts). amount t)"
  by (simp add: categoryTotalOf_def foldl_plus_amount)








text \<open>
  C6.  The \<^verbatim>\<open>savingsRate\<close> of \<^verbatim>\<open>calculateTotalStats\<close> is
  (income - expense) / income * 100 when the total income is positive, and 0
  when the total income is 0, whatever the expenses are.  In exact arithmetic
  the totals are the sums of the amounts of each kind; under a rounding \<open>rnd\<close>
  they are the rounded totals of the two reductions, and the subtraction, the
  division and the multiplication are rounded in turn.
\<close>

theorem C6_savingsRate:
  "(0 < sum_of_kind Income ts \<longrightarrow>
      st_savingsRate (calculateTotalStats (\<lambda>x. x) p ts)
        = (sum_of_kind Income ts - sum_of_kind Expense ts) / sum_of_kind Income ts * 100)
   \<and> (sum_of_kind Income ts = 0 \<longrightarrow> st_savingsRate (calculateTotalStats (\<lambda>x. x) p ts) = 0)
   \<and> (0 < reduce_amount_rounded rnd (filter (\<lambda>t. txtype t = Income) ts) \<longrightarrow>
        st_savingsRate (calculateTotalStats rnd p ts)
          = rnd (rnd (rnd (reduce_amount_rounded rnd (filter (\<lambda>t. txtype t = Income) ts)
                           - reduce_amount_rounded rnd (filter (\<lambda>t. txtype t = Expense) ts))
                      / reduce_amount_rounded rnd (filter (\<lambda>t. txtype t = Income) ts))
                 * 100))
   \<and> (reduce_amount_rounded rnd (filter (\<lambda>t. txtype t = Income) ts) = 0 \<longrightarrow>
        st_savingsRate (calculateTotalStats rnd p ts) = 0)"
  by (simp add: calculateTotalStats_def Let_def reduce_amount_rounded_def
        foldl_plus_amount sum_of_kind_def)


theorem C6_savingsRate_witness:
  "0 < sum_of_kind Income salary_and_food
   \<and> st_savingsRate (calculateTotalStats (\<lambda>x. x) Days30 salary_and_food) = 50
   \<and> sum_of_kind Income free_lunch = 0
   \<and> st_savingsRate (calculateTotalStats (\<lambda>x. x) Days30 free_lunch) = 0
   \<and> 0 < reduce_amount_rounded round_double (filter (\<lambda>t. txtype t = Income) salary_and_food)
   \<and> st_savingsRate (calculateTotalStats round_double Days30 salary_and_food) = 50
   \<and> reduce_amount_rounded round_double (filter (\<lambda>t. txtype t = Income) free_lunch) = 0
   \<and> st_savingsRate (calculateTotalStats round_double Days30 free_lunch) = 0"
proof -
  have h1: "0 < sum_of_kind Income salary_and_food" by code_simp
  have v: "(sum_of_kind Income salary_and_food - sum_of_kind Expense salary_and_food)
             / sum_of_kind Income salary_and_food * 100 = 50"
    by code_simp
  have h2: "sum_of_kind Income free_lunch = 0" by code_simp
  have i: "reduce_amount_rounded round_double (filter (\<lambda>t. txtype t = Income) salary_and_food)
             = 1000"
    by (simp add: salary_and_food_def mk_def reduce_amount_rounded_def round_eval)
  have e: "reduce_amount_rounded round_double (filter (\<lambda>t. txtype t = Expense) salary_and_food)
             = 500"
    by (simp add: salary_and_food_def mk_def reduce_amount_rounded_def round_eval)
  have r: "round_double (round_double (round_double (1000 - 500) / 1000) * 100) = 50"
    by (simp add: round_eval)
  have h3: "0 < reduce_amount_rounded round_double
                  (filter (\<lambda>t. txtype t = Income) salary_and_food)"
    unfolding i by simp
  have h4: "reduce_amount_rounded round_double (filter (\<lambda>t. txtype t = Income) free_lunch) = 0"
    by (simp add: free_lunch_def mk_def reduce_amount_rounded_def)
  note exact = C6_savingsRate [of salary_and_food Days30 "\<lambda>x. x"]
  note exact0 = C6_savingsRate [of free_lunch Days30 "\<lambda>x. x"]
  note rounded = C6_savingsRate [of salary_and_food Days30 round_double]
  note rounded0 = C6_savingsRate [of free_lunch Days30 round_double]
  from exact [THEN conjunct1, THEN mp, OF h1] v
  have a: "st_savingsRate (calculateTotalStats (\<lambda>x. x) Days30 salary_and_food) = 50" by simp
  from exact0 [THEN conjunct2, THEN conjunct1, THEN mp, OF h2]
  have b: "st_savingsRate (calculateTotalStats (\<lambda>x. x) Days30 free_lunch) = 0" .
  from rounded [THEN conjunct2, THEN conjunct2, THEN conjunct1, THEN mp, OF h3]
  have c: "st_savingsRate (calculateTotalStats round_double Days30 salary_and_food) = 50"
    unfolding i e r .
  from rounded0 [THEN conjunct2, THEN conjunct2, THEN conjunct2, THEN mp, OF h4]
  have d: "st_savingsRate (calculateTotalStats round_double Days30 free_lunch) = 0" .
  from h1 a h2 b h3 c h4 d show ?thesis by simp
qed

subsection \<open>Monthly and daily series\<close>

lemma length_fixed_digits [simp]: "length (fixed_digits w n) = w"
  by (induction w arbitrary: n) simp_all

lemma digit_char_less: "a < 10 \<Longrightarrow> b < 10 \<Longrightarrow> digit_char a < digit_char b \<longleftrightarrow> a < b"
  by (simp add: digit_char_def less_char_def)

lemma digit_char_eq: "a < 10 \<Longrightarrow> b < 10 \<Longrightarrow> digit_char a = digit_char b \<longleftrightarrow> a = b"
  using digit_char_less [of a b] digit_char_less [of b a]
  by (metis less_irrefl nat_neq_iff)

lemma digit_char_0: "digit_char 0 = CHR ''0''"
  by code_simp

lemma lex_append_same_length:
  fixes xs ys :: "'a::linorder list"
  assumes "length xs = length ys"
  shows "xs @ us < ys @ vs \<longleftrightarrow> xs < ys \<or> (xs = ys \<and> us < vs)"
  using assms by (induction xs ys rule: list_induct2) auto

lemma lex_pair_linear:
  fixes q1 q2 r1 r2 :: nat
  assumes "r1 < 10" and "r2 < 10"
  shows "(q1 < q2 \<or> (q1 = q2 \<and> r1 < r2)) \<longleftrightarrow> 10 * q1 + r1 < 10 * q2 + r2"
  using assms by linarith

lemma div_mod_lex:
  fixes n m :: nat
  shows "(n div 10 < m div 10 \<or> (n div 10 = m div 10 \<and> n mod 10 < m mod 10)) \<longleftrightarrow> n < m"
proof -
  have "(n div 10 < m div 10 \<or> (n div 10 = m div 10 \<and> n mod 10 < m mod 10))
        \<longleftrightarrow> 10 * (n div 10) + n mod 10 < 10 * (m div 10) + m mod 10"
    by (rule lex_pair_linear) simp_all
  then show ?thesis by (simp only: mult_div_mod_eq)
qed

lemma div_mod_eq_both:
  fixes n m :: nat
  shows "(n div 10 = m div 10 \<and> n mod 10 = m mod 10) \<longleftrightarrow> n = m"
  by (metis mult_div_mod_eq)

lemma fixed_digits_less:
  "n < 10 ^ w \<Longrightarrow> m < 10 ^ w \<Longrightarrow>
   (fixed_digits w n < fixed_digits w m \<longleftrightarrow> n < m) \<and> (fixed_digits w n = fixed_digits w m \<longleftrightarrow> n = m)"
proof (induction w arbitrary: n m)
  case 0
  then show ?case by simp
next
  case (Suc w)
  have n: "n div 10 < 10 ^ w" and m: "m div 10 < 10 ^ w"
    using Suc.prems by (simp_all add: less_mult_imp_div_less mult.commute)
  note IH = Suc.IH [OF n m]
  have d: "digit_char (n mod 10) < digit_char (m mod 10) \<longleftrightarrow> n mod 10 < m mod 10"
    by (simp add: digit_char_less)
  have e: "digit_char (n mod 10) = digit_char (m mod 10) \<longleftrightarrow> n mod 10 = m mod 10"
    by (simp add: digit_char_eq)
  have "fixed_digits (Suc w) n < fixed_digits (Suc w) m
        \<longleftrightarrow> n div 10 < m div 10 \<or> (n div 10 = m div 10 \<and> n mod 10 < m mod 10)"
    using IH d by (simp add: lex_append_same_length)
  also have "\<dots> \<longleftrightarrow> n < m" by (rule div_mod_lex)
  finally have less: "fixed_digits (Suc w) n < fixed_digits (Suc w) m \<longleftrightarrow> n < m" .
  have "fixed_digits (Suc w) n = fixed_digits (Suc w) m
        \<longleftrightarrow> n div 10 = m div 10 \<and> n mod 10 = m mod 10"
    using IH e by simp
  also have "\<dots> \<longleftrightarrow> n = m" by (rule div_mod_eq_both)
  finally show ?case using less by simp
qed

lemma String_nat_fixed:
  "0 < w \<Longrightarrow> 10 ^ (w - 1) \<le> n \<or> w = 1 \<Longrightarrow> n < 10 ^ w \<Longrightarrow> String_nat n = fixed_digits w n"
proof (induction w arbitrary: n)
  case 0
  then show ?case by simp
next
  case (Suc w)
  show ?case
  proof (cases "w = 0")
    case True
    with Suc.prems have "n < 10" by simp
    then show ?thesis using True by (simp add: String_nat.simps [of n])
  next
    case False
    with Suc.prems have lo: "10 ^ w \<le> n" by simp
    from False have "(10::nat) ^ 1 \<le> 10 ^ w"
      by (intro power_increasing) simp_all
    with lo have ge: "\<not> n < 10" by simp
    have "10 ^ (w - 1) \<le> n div 10"
    proof -
      have "(10::nat) ^ w = 10 ^ (w - 1) * 10" using False by (cases w) simp_all
      then have "10 ^ (w - 1) * 10 \<le> n" using lo by simp
      then show ?thesis by (simp add: less_eq_div_iff_mult_less_eq)
    qed
    moreover have "n div 10 < 10 ^ w"
      using Suc.prems by (simp add: less_mult_imp_div_less mult.commute)
    ultimately have "String_nat (n div 10) = fixed_digits w (n div 10)"
      using Suc.IH [of "n div 10"] False by simp
    then show ?thesis using ge by (simp add: String_nat.simps [of n])
  qed
qed

lemma padStart_two_digits: "k < 100 \<Longrightarrow> padStart 2 (CHR ''0'') (String_nat k) = fixed_digits 2 k"
proof (cases "k < 10")
  case True
  then show ?thesis
    by (simp add: padStart_def String_nat.simps [of k] numeral_2_eq_2 digit_char_0)
next
  case False
  assume "k < 100"
  with False have "String_nat k = fixed_digits 2 k"
    using String_nat_fixed [of 2 k] by simp
  then show ?thesis by (simp add: padStart_def)
qed

lemma insort_key_map:
  "insort_key f (g x) (map g xs) = map g (insort_key (\<lambda>x. f (g x)) x xs)"
  by (induction xs) simp_all

lemma sort_key_map: "sort_key f (map g xs) = map g (sort_key (\<lambda>x. f (g x)) xs)"
  by (induction xs) (simp_all add: insort_key_map)

lemma slice_last_map: "slice_last n (map g xs) = map g (slice_last n xs)"
  by (simp add: slice_last_def drop_map)

lemma length_slice_last: "length (slice_last n xs) \<le> n"
  by (simp add: slice_last_def)

lemma sort_slice_grouped:
  "slice_last n (sort_key fst (map (\<lambda>k. (k, g k)) (first_seen ks)))
   = map (\<lambda>k. (k, g k)) (retained n ks)"
  by (simp add: retained_def sort_key_map slice_last_map)

lemma retained_length: "length (retained n ks) \<le> n"
  by (simp add: retained_def length_slice_last)

lemma retained_sorted: "sorted_wrt (<) (retained n ks)"
proof -
  have "sorted_wrt (<) (sort_key (\<lambda>k. k) (first_seen ks))"
    by (simp add: strict_sorted_iff)
  then show ?thesis
    unfolding retained_def slice_last_def by (rule sorted_wrt_drop)
qed

lemma retained_subset: "set (retained n ks) \<subseteq> set ks"
proof -
  have "set (retained n ks) \<subseteq> set (sort_key (\<lambda>k. k) (first_seen ks))"
    unfolding retained_def slice_last_def by (rule set_drop_subset)
  then show ?thesis by simp
qed

lemma retained_latest:
  assumes "k \<in> set ks"
  shows "k \<in> set (retained n ks)
         \<or> (length (retained n ks) = n \<and> (\<forall>k'\<in>set (retained n ks). k < k'))"
proof -
  let ?s = "sort_key (\<lambda>k. k) (first_seen ks)"
  let ?d = "length ?s - n"
  have split: "?s = take ?d ?s @ retained n ks"
    by (simp add: retained_def slice_last_def)
  have "sorted_wrt (<) ?s" by (simp add: strict_sorted_iff)
  then have "sorted_wrt (<) (take ?d ?s @ retained n ks)" using split by simp
  then have before: "\<forall>x\<in>set (take ?d ?s). \<forall>y\<in>set (retained n ks). x < y"
    by (simp add: sorted_wrt_append)
  have "k \<in> set ?s" using assms by simp
  then have "k \<in> set (take ?d ?s) \<or> k \<in> set (retained n ks)"
    using split by (metis Un_iff set_append)
  then show ?thesis
  proof
    assume a: "k \<in> set (take ?d ?s)"
    then have "take ?d ?s \<noteq> []" by auto
    then have "0 < ?d" by (cases "?d") auto
    then have "length (retained n ks) = n"
      by (simp add: retained_def slice_last_def)
    with a before show ?thesis by blast
  next
    assume "k \<in> set (retained n ks)"
    then show ?thesis by simp
  qed
qed

lemma list_in_image:
  "set xs \<subseteq> f ` A \<Longrightarrow> \<exists>ys. xs = map f ys \<and> set ys \<subseteq> A"
proof (induction xs)
  case Nil
  then show ?case by simp
next
  case (Cons x xs)
  then obtain ys where "xs = map f ys" "set ys \<subseteq> A" by auto
  moreover from Cons.prems obtain a where "a \<in> A" "x = f a" by auto
  ultimately show ?case by (intro exI [of _ "a # ys"]) simp
qed

lemma monthKey_ymKey: "monthKey h t = ymKey (yearMonth h t)"
  by (simp add: monthKey_def ymKey_def yearMonth_def)

lemma ymKey_fixed:
  assumes "four_digit_month ym"
  shows "ymKey ym = fixed_digits 4 (nat (fst ym)) @ (CHR ''-'' # fixed_digits 2 (snd ym + 1))"
proof -
  have lo: "10 ^ (4 - 1) \<le> nat (fst ym) \<or> (4::nat) = 1"
    using assms unfolding four_digit_month_def by simp linarith
  have hi: "nat (fst ym) < 10 ^ 4"
    using assms unfolding four_digit_month_def by simp linarith
  have pos: "\<not> fst ym < 0"
    using assms unfolding four_digit_month_def by linarith
  have y: "String_int (fst ym) = fixed_digits 4 (nat (fst ym))"
    using String_nat_fixed [OF _ lo hi] pos by (simp add: String_int_def)
  have m: "padStart 2 (CHR ''0'') (String_nat (snd ym + 1)) = fixed_digits 2 (snd ym + 1)"
    using assms by (intro padStart_two_digits) (simp add: four_digit_month_def)
  show ?thesis unfolding ymKey_def y m by simp
qed

lemma ymKey_order:
  assumes a: "four_digit_month a" and b: "four_digit_month b"
  shows "(ymKey a < ymKey b \<longleftrightarrow> month_before a b) \<and> (ymKey a = ymKey b \<longleftrightarrow> a = b)"
proof -
  have ya: "nat (fst a) < 10 ^ 4"
    using a unfolding four_digit_month_def by simp linarith
  have yb: "nat (fst b) < 10 ^ 4"
    using b unfolding four_digit_month_def by simp linarith
  have ma: "snd a + 1 < 10 ^ 2" and mb: "snd b + 1 < 10 ^ 2"
    using a b by (simp_all add: four_digit_month_def)
  note Y = fixed_digits_less [OF ya yb]
  note M = fixed_digits_less [OF ma mb]
  have nn: "nat (fst a) < nat (fst b) \<longleftrightarrow> fst a < fst b" "nat (fst a) = nat (fst b) \<longleftrightarrow> fst a = fst b"
    using a b by (auto simp: four_digit_month_def)
  have "ymKey a < ymKey b
        \<longleftrightarrow> fixed_digits 4 (nat (fst a)) < fixed_digits 4 (nat (fst b))
            \<or> (fixed_digits 4 (nat (fst a)) = fixed_digits 4 (nat (fst b))
                \<and> fixed_digits 2 (snd a + 1) < fixed_digits 2 (snd b + 1))"
    unfolding ymKey_fixed [OF a] ymKey_fixed [OF b]
    by (subst lex_append_same_length) simp_all
  also have "\<dots> \<longleftrightarrow> month_before a b"
    using Y M nn by (simp add: month_before_def)
  finally have less: "ymKey a < ymKey b \<longleftrightarrow> month_before a b" .
  have "ymKey a = ymKey b
        \<longleftrightarrow> fixed_digits 4 (nat (fst a)) = fixed_digits 4 (nat (fst b))
            \<and> fixed_digits 2 (snd a + 1) = fixed_digits 2 (snd b + 1)"
    unfolding ymKey_fixed [OF a] ymKey_fixed [OF b] by simp
  also have "\<dots> \<longleftrightarrow> a = b"
    using Y M nn by (auto simp: prod_eq_iff)
  finally show ?thesis using less by simp
qed

lemma monthlyBuckets_closed:
  "monthlyBuckets h ts =
     map (\<lambda>k. (k, sum_of_kind Income (filter (\<lambda>t. monthKey h t = k) ts),
                   sum_of_kind Expense (filter (\<lambda>t. monthKey h t = k) ts)))
         (retained 6 (map (monthKey h) ts))"
  unfolding monthlyBuckets_def build_monthlyMap_closed by (rule sort_slice_grouped)

lemma length_processMonthlyData: "length (processMonthlyData h ts) \<le> 6"
  by (simp add: processMonthlyData_def monthlyBuckets_closed retained_length)

lemma monthly_rows_of_keys:
  "map (\<lambda>r. (md_income r, md_expense r, md_net r)) (processMonthlyData h ts)
   = map (\<lambda>k. (sum_of_kind Income (filter (\<lambda>t. monthKey h t = k) ts),
                sum_of_kind Expense (filter (\<lambda>t. monthKey h t = k) ts),
                sum_of_kind Income (filter (\<lambda>t. monthKey h t = k) ts)
                  - sum_of_kind Expense (filter (\<lambda>t. monthKey h t = k) ts)))
         (retained 6 (map (monthKey h) ts))"
  by (simp add: processMonthlyData_def monthlyBuckets_closed comp_def)

lemma monthly_series_four_digit:
  assumes wf: "four_digit_years h ts"
  shows "\<exists>ms. map (\<lambda>r. (md_income r, md_expense r, md_net r)) (processMonthlyData h ts)
                 = map (\<lambda>ym. (monthIncome h ts ym, monthExpense h ts ym,
                               monthIncome h ts ym - monthExpense h ts ym)) ms
             \<and> sorted_wrt month_before ms
             \<and> set ms \<subseteq> yearMonth h ` set ts
             \<and> (\<forall>t\<in>set ts. yearMonth h t \<in> set ms
                   \<or> (length ms = 6 \<and> (\<forall>ym\<in>set ms. month_before (yearMonth h t) ym)))"
proof -
  let ?R = "retained 6 (map (monthKey h) ts)"
  have wfm: "\<And>ym. ym \<in> yearMonth h ` set ts \<Longrightarrow> four_digit_month ym"
    using wf by (auto simp: four_digit_years_def)
  have "set ?R \<subseteq> set (map (monthKey h) ts)" by (rule retained_subset)
  then have "set ?R \<subseteq> ymKey ` (yearMonth h ` set ts)"
    by (auto simp: monthKey_ymKey)
  then obtain ms where R: "?R = map ymKey ms" and ms: "set ms \<subseteq> yearMonth h ` set ts"
    using list_in_image by blast
  have wfms: "\<And>ym. ym \<in> set ms \<Longrightarrow> four_digit_month ym"
    using ms wfm by blast
  have same_group: "filter (\<lambda>t. monthKey h t = ymKey ym) ts = filter (\<lambda>t. yearMonth h t = ym) ts"
    if "ym \<in> set ms" for ym
  proof (rule filter_cong [OF refl])
    fix t assume "t \<in> set ts"
    then have "four_digit_month (yearMonth h t)" using wfm by blast
    then show "(monthKey h t = ymKey ym) = (yearMonth h t = ym)"
      using ymKey_order [of "yearMonth h t" ym] wfms [OF that] by (simp add: monthKey_ymKey)
  qed
  have rows: "map (\<lambda>r. (md_income r, md_expense r, md_net r)) (processMonthlyData h ts)
        = map (\<lambda>ym. (monthIncome h ts ym, monthExpense h ts ym,
                      monthIncome h ts ym - monthExpense h ts ym)) ms"
    unfolding monthly_rows_of_keys R map_map
    by (rule map_cong) (simp_all add: same_group monthIncome_def monthExpense_def)
  have "sorted_wrt (<) (map ymKey ms)" using retained_sorted [of 6 "map (monthKey h) ts"] R by simp
  then have "sorted_wrt (\<lambda>a b. ymKey a < ymKey b) ms" by (simp add: sorted_wrt_map)
  then have sorted: "sorted_wrt month_before ms"
    by (rule sorted_wrt_mono_rel [rotated]) (use ymKey_order wfms in blast)
  have latest: "\<forall>t\<in>set ts. yearMonth h t \<in> set ms
                   \<or> (length ms = 6 \<and> (\<forall>ym\<in>set ms. month_before (yearMonth h t) ym))"
  proof
    fix t assume t: "t \<in> set ts"
    then have wt: "four_digit_month (yearMonth h t)" using wfm by blast
    from t have "monthKey h t \<in> set (map (monthKey h) ts)" by simp
    from retained_latest [OF this, of 6]
    have "ymKey (yearMonth h t) \<in> set (map ymKey ms)
          \<or> (length (map ymKey ms) = 6 \<and> (\<forall>k'\<in>set (map ymKey ms). ymKey (yearMonth h t) < k'))"
      unfolding R monthKey_ymKey .
    then show "yearMonth h t \<in> set ms
                \<or> (length ms = 6 \<and> (\<forall>ym\<in>set ms. month_before (yearMonth h t) ym))"
    proof
      assume "ymKey (yearMonth h t) \<in> set (map ymKey ms)"
      then obtain ym where "ym \<in> set ms" "ymKey (yearMonth h t) = ymKey ym" by auto
      then have "yearMonth h t \<in> set ms" using ymKey_order [OF wt wfms] by auto
      then show ?thesis ..
    next
      assume a: "length (map ymKey ms) = 6 \<and> (\<forall>k'\<in>set (map ymKey ms). ymKey (yearMonth h t) < k')"
      then have "\<forall>ym\<in>set ms. month_before (yearMonth h t) ym"
        using ymKey_order [OF wt wfms] by auto
      with a show ?thesis by simp
    qed
  qed
  from rows sorted ms latest show ?thesis by blast
qed

text \<open>
  C4, amended.  The monthly series never has more than six entries.  When the
  host reads a year from 1000 to 9999 (and a month index below 12) from every
  date, the entries are the buckets of a list of calendar months that is
  strictly ascending in chronological order and consists of months of the
  input; a month of the input that is missing from it is earlier than all six
  retained months; and each entry carries the summed income and the summed
  expense of its month, and their difference as net.
\<close>

theorem C4_monthly_series_amended:
  "length (processMonthlyData h ts) \<le> 6
   \<and> (four_digit_years h ts \<longrightarrow>
        (\<exists>ms. map (\<lambda>r. (md_income r, md_expense r, md_net r)) (processMonthlyData h ts)
                 = map (\<lambda>ym. (monthIncome h ts ym, monthExpense h ts ym,
                               monthIncome h ts ym - monthExpense h ts ym)) ms
             \<and> sorted_wrt month_before ms
             \<and> set ms \<subseteq> yearMonth h ` set ts
             \<and> (\<forall>t\<in>set ts. yearMonth h t \<in> set ms
                   \<or> (length ms = 6 \<and> (\<forall>ym\<in>set ms. month_before (yearMonth h t) ym)))))"
  using length_processMonthlyData [of h ts] monthly_series_four_digit [of h ts] by blast

lemma of_char_digit_char: "d < 10 \<Longrightarrow> of_char (digit_char d) = 48 + d"
  by (simp add: digit_char_def)

lemma digit_char_not_T: "d < 10 \<Longrightarrow> digit_char d \<noteq> CHR ''T''"
proof
  assume d: "d < 10" and "digit_char d = CHR ''T''"
  then have "(of_char (digit_char d) :: nat) = of_char (CHR ''T'')" by simp
  then show False using d by (simp add: of_char_digit_char)
qed

lemma T_notin_fixed_digits: "CHR ''T'' \<notin> set (fixed_digits w n)"
  by (induction w arbitrary: n) (auto simp: digit_char_not_T [symmetric])

lemma T_notin_iso_day: "CHR ''T'' \<notin> set (iso_day ymd)"
  by (simp add: iso_day_def T_notin_fixed_digits)

lemma dateKey_iso:
  assumes "iso_timestamp (date t)"
  shows "dateKey t = iso_day (dayOf t)"
proof -
  have "date t = take 11 (date t) @ drop 11 (date t)" by simp
  also have "\<dots> = iso_day (dayOf t) @ (CHR ''T'' # drop 11 (date t))"
    using assms by (simp add: iso_timestamp_def dayOf_def)
  finally have "dateKey t
      = takeWhile (\<lambda>c. c \<noteq> CHR ''T'') (iso_day (dayOf t) @ (CHR ''T'' # drop 11 (date t)))"
    by (simp add: dateKey_def)
  also have "\<dots> = takeWhile (\<lambda>c. c \<noteq> CHR ''T'') (iso_day (dayOf t))"
    by (rule takeWhile_tail) simp
  also have "\<dots> = iso_day (dayOf t)"
    using T_notin_iso_day [of "dayOf t"] by (auto simp: takeWhile_eq_all_conv)
  finally show ?thesis .
qed

lemma iso_day_order:
  assumes a: "valid_day a" and b: "valid_day b"
  shows "(iso_day a < iso_day b \<longleftrightarrow> day_before a b) \<and> (iso_day a = iso_day b \<longleftrightarrow> a = b)"
proof -
  have ya: "fst a < 10 ^ 4" and yb: "fst b < 10 ^ 4"
    using a b by (simp_all add: valid_day_def)
  have ma: "fst (snd a) < 10 ^ 2" and mb: "fst (snd b) < 10 ^ 2"
    using a b by (simp_all add: valid_day_def)
  have da: "snd (snd a) < 10 ^ 2" and db: "snd (snd b) < 10 ^ 2"
    using a b by (simp_all add: valid_day_def)
  note Y = fixed_digits_less [OF ya yb]
  note M = fixed_digits_less [OF ma mb]
  note D = fixed_digits_less [OF da db]
  have tail: "fixed_digits 2 (fst (snd a)) @ (CHR ''-'' # fixed_digits 2 (snd (snd a)))
              < fixed_digits 2 (fst (snd b)) @ (CHR ''-'' # fixed_digits 2 (snd (snd b)))
        \<longleftrightarrow> fst (snd a) < fst (snd b)
            \<or> (fst (snd a) = fst (snd b) \<and> snd (snd a) < snd (snd b))"
    using M D by (subst lex_append_same_length) simp_all
  have "iso_day a < iso_day b
        \<longleftrightarrow> fixed_digits 4 (fst a) < fixed_digits 4 (fst b)
            \<or> (fixed_digits 4 (fst a) = fixed_digits 4 (fst b)
                \<and> fixed_digits 2 (fst (snd a)) @ (CHR ''-'' # fixed_digits 2 (snd (snd a)))
                   < fixed_digits 2 (fst (snd b)) @ (CHR ''-'' # fixed_digits 2 (snd (snd b))))"
    unfolding iso_day_def by (subst lex_append_same_length) simp_all
  also have "\<dots> \<longleftrightarrow> day_before a b"
    unfolding tail using Y by (simp add: day_before_def)
  finally have less: "iso_day a < iso_day b \<longleftrightarrow> day_before a b" .
  have "iso_day a = iso_day b
        \<longleftrightarrow> fixed_digits 4 (fst a) = fixed_digits 4 (fst b)
            \<and> fixed_digits 2 (fst (snd a)) = fixed_digits 2 (fst (snd b))
            \<and> fixed_digits 2 (snd (snd a)) = fixed_digits 2 (snd (snd b))"
    unfolding iso_day_def by simp
  also have "\<dots> \<longleftrightarrow> a = b"
    using Y M D by (auto simp: prod_eq_iff)
  finally show ?thesis using less by simp
qed

lemma processDailyData_closed:
  "processDailyData ts =
     map (\<lambda>k. \<lparr> dd_date = k,
                 dd_amount = (\<Sum>t\<leftarrow>filter (\<lambda>t. dateKey t = k) (expenses_of ts). amount t) \<rparr>)
         (retained 30 (map dateKey (expenses_of ts)))"
  unfolding processDailyData_def build_dailyMap_closed sort_slice_grouped
  by (simp add: comp_def)

lemma length_processDailyData: "length (processDailyData ts) \<le> 30"
  by (simp add: processDailyData_closed retained_length)

lemma daily_series_iso:
  assumes wf: "iso_dated (expenses_of ts)"
  shows "\<exists>ds. processDailyData ts
                 = map (\<lambda>d. \<lparr> dd_date = iso_day d, dd_amount = dayExpense ts d \<rparr>) ds
             \<and> sorted_wrt day_before ds
             \<and> set ds \<subseteq> dayOf ` set (expenses_of ts)
             \<and> (\<forall>t\<in>set (expenses_of ts). dayOf t \<in> set ds
                   \<or> (length ds = 30 \<and> (\<forall>d\<in>set ds. day_before (dayOf t) d)))"
proof -
  let ?E = "expenses_of ts"
  let ?R = "retained 30 (map dateKey ?E)"
  have iso: "\<And>t. t \<in> set ?E \<Longrightarrow> iso_timestamp (date t)"
    using wf by (auto simp: iso_dated_def)
  have key: "\<And>t. t \<in> set ?E \<Longrightarrow> dateKey t = iso_day (dayOf t)"
    using iso dateKey_iso by blast
  have valid: "\<And>d. d \<in> dayOf ` set ?E \<Longrightarrow> valid_day d"
    using iso by (auto simp: iso_timestamp_def dayOf_def)
  have "map dateKey ?E = map (\<lambda>t. iso_day (dayOf t)) ?E"
    by (rule map_cong [OF refl]) (rule key)
  then have "set (map dateKey ?E) = iso_day ` (dayOf ` set ?E)"
    by (simp add: image_image)
  moreover have "set ?R \<subseteq> set (map dateKey ?E)" by (rule retained_subset)
  ultimately have "set ?R \<subseteq> iso_day ` (dayOf ` set ?E)"
    by simp
  then obtain ds where R: "?R = map iso_day ds" and ds: "set ds \<subseteq> dayOf ` set ?E"
    using list_in_image by blast
  have vds: "\<And>d. d \<in> set ds \<Longrightarrow> valid_day d"
    using ds valid by blast
  have same_group: "filter (\<lambda>t. dateKey t = iso_day d) ?E = filter (\<lambda>t. dayOf t = d) ?E"
    if "d \<in> set ds" for d
  proof (rule filter_cong [OF refl])
    fix t assume t: "t \<in> set ?E"
    then have "valid_day (dayOf t)" using valid by blast
    then show "(dateKey t = iso_day d) = (dayOf t = d)"
      using iso_day_order [of "dayOf t" d] vds [OF that] key [OF t] by simp
  qed
  have rows: "processDailyData ts
        = map (\<lambda>d. \<lparr> dd_date = iso_day d, dd_amount = dayExpense ts d \<rparr>) ds"
    unfolding processDailyData_closed R map_map
    by (rule map_cong) (simp_all add: same_group dayExpense_def)
  have "sorted_wrt (<) (map iso_day ds)" using retained_sorted [of 30 "map dateKey ?E"] R by simp
  then have "sorted_wrt (\<lambda>a b. iso_day a < iso_day b) ds" by (simp add: sorted_wrt_map)
  then have sorted: "sorted_wrt day_before ds"
    by (rule sorted_wrt_mono_rel [rotated]) (use iso_day_order vds in blast)
  have latest: "\<forall>t\<in>set ?E. dayOf t \<in> set ds
                   \<or> (length ds = 30 \<and> (\<forall>d\<in>set ds. day_before (dayOf t) d))"
  proof
    fix t assume t: "t \<in> set ?E"
    then have wt: "valid_day (dayOf t)" using valid by blast
    from t have "dateKey t \<in> set (map dateKey ?E)" by simp
    from retained_latest [OF this, of 30]
    have "iso_day (dayOf t) \<in> set (map iso_day ds)
          \<or> (length (map iso_day ds) = 30 \<and> (\<forall>k'\<in>set (map iso_day ds). iso_day (dayOf t) < k'))"
      unfolding R key [OF t] .
    then show "dayOf t \<in> set ds
                \<or> (length ds = 30 \<and> (\<forall>d\<in>set ds. day_before (dayOf t) d))"
    proof
      assume "iso_day (dayOf t) \<in> set (map iso_day ds)"
      then obtain d where "d \<in> set ds" "iso_day (dayOf t) = iso_day d" by auto
      then have "dayOf t \<in> set ds" using iso_day_order [OF wt vds] by auto
      then show ?thesis ..
    next
      assume a: "length (map iso_day ds) = 30 \<and> (\<forall>k'\<in>set (map iso_day ds). iso_day (dayOf t) < k')"
      then have "\<forall>d\<in>set ds. day_before (dayOf t) d"
        using iso_day_order [OF wt vds] by auto
      with a show ?thesis by simp
    qed
  qed
  from rows sorted ds latest show ?thesis by blast
qed

text \<open>
  C5, amended.  The daily series never has more than thirty entries.  When
  the date of every expense transaction is a timestamp \<^verbatim>\<open>YYYY-MM-DDT...\<close> with
  a four-digit year, the
  entries are the days of a list of calendar days that is strictly ascending
  in chronological order and consists of days of expense transactions; a day
  of an expense transaction that is missing from it is earlier than all thirty
  retained days; and each entry carries the text of its day, without the time
  of day, and the sum of the expense amounts of that day.
\<close>

theorem C5_daily_series_amended:
  "length (processDailyData ts) \<le> 30
   \<and> (iso_dated (expenses_of ts) \<longrightarrow>
        (\<exists>ds. processDailyData ts
                 = map (\<lambda>d. \<lparr> dd_date = iso_day d, dd_amount = dayExpense ts d \<rparr>) ds
             \<and> sorted_wrt day_before ds
             \<and> set ds \<subseteq> dayOf ` set (expenses_of ts)
             \<and> (\<forall>t\<in>set (expenses_of ts). dayOf t \<in> set ds
                   \<or> (length ds = 30 \<and> (\<forall>d\<in>set ds. day_before (dayOf t) d)))))"
  using length_processDailyData [of ts] daily_series_iso [of ts] by blast

lemma digit_char_values:
  "digit_char 0 = CHR ''0''" "digit_char 1 = CHR ''1''" "digit_char 2 = CHR ''2''"
  "digit_char 3 = CHR ''3''" "digit_char 4 = CHR ''4''" "digit_char 5 = CHR ''5''"
  "digit_char 6 = CHR ''6''" "digit_char 7 = CHR ''7''" "digit_char 8 = CHR ''8''"
  "digit_char 9 = CHR ''9''" "digit_char (Suc 0) = CHR ''1''"
  by code_simp+

lemma String_nat_digit: "n < 10 \<Longrightarrow> String_nat n = [digit_char n]"
  by (simp add: String_nat.simps [of n])

lemma String_nat_step:
  "10 \<le> n \<Longrightarrow> String_nat n = String_nat (n div 10) @ [digit_char (n mod 10)]"
  by (simp add: String_nat.simps [of n])

lemma fixed_digits_2: "fixed_digits 2 n = [digit_char (n div 10 mod 10), digit_char (n mod 10)]"
proof -
  have "(2::nat) = Suc (Suc 0)" by simp
  then show ?thesis by (simp only: fixed_digits.simps append_Nil append_Cons)
qed

lemma fixed_digits_4:
  "fixed_digits 4 n = [digit_char (n div 10 div 10 div 10 mod 10), digit_char (n div 10 div 10 mod 10),
                       digit_char (n div 10 mod 10), digit_char (n mod 10)]"
proof -
  have "(4::nat) = Suc (Suc (Suc (Suc 0)))" by simp
  then show ?thesis by (simp only: fixed_digits.simps append_Nil append_Cons)
qed

lemmas date_eval =
  calendarDay_def digits_value_def iso_day_def valid_day_def iso_timestamp_def iso_dated_def
  day_before_def dayOf_def fixed_digits_2 fixed_digits_4 digit_char_values
  utcHost_def yearMonth_def month_before_def four_digit_years_def four_digit_month_def
  mk_def

lemmas monthly_eval =
  processMonthlyData_def monthlyBuckets_def build_monthlyMap_def monthly_step_def monthKey_def
  Map_has_def Map_get_def slice_last_def String_int_def String_nat_digit String_nat_step padStart_def Let_def

lemmas daily_eval =
  processDailyData_def build_dailyMap_def daily_step_def dateKey_def get_or_zero_def
  Map_get_def slice_last_def

text \<open>
  C4, as stated, fails.  The buckets are sorted by comparing the keys
  \<^verbatim>\<open>year-month\<close> as strings, and the year is written without padding.  A key
  of the year 10000 starts with \<^verbatim>\<open>1\<close> and sorts before every key of the year
  9999: the series lists January 10000 (expense 70) before December 9999
  (expense 30).
\<close>

theorem C4_monthly_series_counterexample:
  "map (yearMonth utcHost) turn_of_y10k = [(9999, 11), (10000, 0)]
   \<and> map amount turn_of_y10k = [30, 70]
   \<and> month_before (9999, 11) (10000, 0)
   \<and> map md_expense (processMonthlyData utcHost turn_of_y10k) = [70, 30]"
  by (simp add: turn_of_y10k_def date_eval monthly_eval)

text \<open>
  C5, as stated, fails.  The days are sorted by comparing the text before the
  \<^verbatim>\<open>T\<close> of the timestamp as strings.  The timestamp of a day of the year
  10000 starts with \<^verbatim>\<open>+\<close> and sorts before every day of the year 9999: the
  series lists 1 January 10000 before 31 December 9999.
\<close>

theorem C5_daily_series_counterexample:
  "processDailyData turn_of_y10k
     = [\<lparr> dd_date = ''+010000-01-01'', dd_amount = 70 \<rparr>,
        \<lparr> dd_date = ''9999-12-31'', dd_amount = 30 \<rparr>]
   \<and> calendarDay ''+010000-01-01'' = (10000, 1, 1)
   \<and> calendarDay ''9999-12-31'' = (9999, 12, 31)
   \<and> day_before (9999, 12, 31) (10000, 1, 1)"
  by (simp add: turn_of_y10k_def date_eval daily_eval)

theorem C4_monthly_series_amended_witness:
  "four_digit_years utcHost salary_and_food
   \<and> length (processMonthlyData utcHost salary_and_food) \<le> 6
   \<and> (\<exists>ms. map (\<lambda>r. (md_income r, md_expense r, md_net r)) (processMonthlyData utcHost salary_and_food)
                 = map (\<lambda>ym. (monthIncome utcHost salary_and_food ym, monthExpense utcHost salary_and_food ym,
                               monthIncome utcHost salary_and_food ym - monthExpense utcHost salary_and_food ym)) ms
             \<and> sorted_wrt month_before ms
             \<and> set ms \<subseteq> yearMonth utcHost ` set salary_and_food
             \<and> (\<forall>t\<in>set salary_and_food. yearMonth utcHost t \<in> set ms
                   \<or> (length ms = 6 \<and> (\<forall>ym\<in>set ms. month_before (yearMonth utcHost t) ym))))"
proof -
  have h: "four_digit_years utcHost salary_and_food"
    by (simp add: salary_and_food_def date_eval)
  note inst = C4_monthly_series_amended [of utcHost salary_and_food]
  show ?thesis
    by (rule conjI [OF h conjI [OF inst [THEN conjunct1] inst [THEN conjunct2, THEN mp, OF h]]])
qed

theorem C5_daily_series_amended_witness:
  "iso_dated (expenses_of salary_and_food)
   \<and> length (processDailyData salary_and_food) \<le> 30
   \<and> (\<exists>ds. processDailyData salary_and_food
                 = map (\<lambda>d. \<lparr> dd_date = iso_day d, dd_amount = dayExpense salary_and_food d \<rparr>) ds
             \<and> sorted_wrt day_before ds
             \<and> set ds \<subseteq> dayOf ` set (expenses_of salary_and_food)
             \<and> (\<forall>t\<in>set (expenses_of salary_and_food). dayOf t \<in> set ds
                   \<or> (length ds = 30 \<and> (\<forall>d\<in>set ds. day_before (dayOf t) d))))"
proof -
  have h: "iso_dated (expenses_of salary_and_food)"
    by (simp add: salary_and_food_def expenses_of_def date_eval)
  note inst = C5_daily_series_amended [of salary_and_food]
  show ?thesis
    by (rule conjI [OF h conjI [OF inst [THEN conjunct1] inst [THEN conjunct2, THEN mp, OF h]]])
qed

subsection \<open>Form Controller and List Controller\<close>

lemma parseFloat_minus_5: "parseFloat ''-5'' = Finite (- 5)"
  by (simp add: parseFloat_def unsigned_literal_def exponent_factor_def negate_def
        isWhiteSpace_def isDigit_def digits_value_def Let_def)

text \<open>
  C3 does not hold of the code.  The effect on the selected category replaces
  the list of subcategories but clears the selected subcategory only when the
  category becomes empty.  After Food and Groceries have been picked and the
  category is changed to Transport, the state still selects Groceries, which
  is not among the subcategories of Transport, and a submission sends the
  category Transport together with the subcategory Groceries.
\<close>

theorem C3_subcategory_survives_category_change:
  "selectedCategory (fst (runForm create_props demo_remote
       (initialState demo_remote demo_categories) switch_category)) = ''B''
   \<and> selectedSubcategory (fst (runForm create_props demo_remote
       (initialState demo_remote demo_categories) switch_category)) = ''a1''
   \<and> form_subcategories (fst (runForm create_props demo_remote
       (initialState demo_remote demo_categories) switch_category))
       = [\<lparr> sub_ident = ''b1'', sub_name = ''Bus'', sub_category_id = ''B'' \<rparr>]
   \<and> calls (snd (runForm create_props demo_remote
       (initialState demo_remote demo_categories) switch_category))
       = [Insert [\<lparr> td_amount = Finite (25 / 2), td_description = ''Bus ticket'',
                     td_type = Expense, td_date = ''2024-03-02T12:00:00.000Z'',
                     td_category_id = ''B'', td_subcategory_id = Some ''a1'' \<rparr>]]"
  by code_simp

lemma validateForm_rejects:
  assumes "form_amount st = [] \<or> isNaN (parseFloat (form_amount st))
           \<or> le_zero (parseFloat (form_amount st))
           \<or> selectedCategory st = [] \<or> trim (form_description st) = []"
  shows "\<exists>title message. validateForm st = (False, [Alert title message])"
  using assms by (auto simp: validateForm_def)

lemma calls_alert [simp]: "calls [Alert title message] = []"
  by (simp add: calls_def)

text \<open>
  C8.  When the amount is empty or does not parse to a number, or parses to a
  value that is not greater than 0, or no category is selected, or the
  description is empty after trimming, \<^verbatim>\<open>handleSubmit\<close> leaves the state as it
  is, shows exactly one alert and calls the remote store not at all.  For the
  amount \<^verbatim>\<open>-5\<close> the alert is ``Amount must be greater than 0''.
\<close>

theorem C8_invalid_submission_rejected:
  "(form_amount st = [] \<or> isNaN (parseFloat (form_amount st))
      \<or> le_zero (parseFloat (form_amount st))
      \<or> selectedCategory st = [] \<or> trim (form_description st) = []
    \<longrightarrow> (\<exists>title message. handleSubmit props remote st = (st, [Alert title message]))
        \<and> calls (snd (handleSubmit props remote st)) = [])
   \<and> (form_amount st = ''-5''
    \<longrightarrow> handleSubmit props remote st
          = (st, [Alert ''Invalid Input'' ''Amount must be greater than 0'']))"
proof (intro conjI impI)
  assume a: "form_amount st = [] \<or> isNaN (parseFloat (form_amount st))
      \<or> le_zero (parseFloat (form_amount st))
      \<or> selectedCategory st = [] \<or> trim (form_description st) = []"
  from validateForm_rejects [OF a] obtain title message
    where v: "validateForm st = (False, [Alert title message])" by blast
  then have h: "handleSubmit props remote st = (st, [Alert title message])"
    by (simp add: handleSubmit_def)
  then show "\<exists>title message. handleSubmit props remote st = (st, [Alert title message])"
    by blast
  from h show "calls (snd (handleSubmit props remote st)) = []" by simp
next
  assume "form_amount st = ''-5''"
  then have "validateForm st = (False, [Alert ''Invalid Input'' ''Amount must be greater than 0''])"
    by (simp add: validateForm_def parseFloat_minus_5 isNaN_def le_zero_def)
  then show "handleSubmit props remote st
          = (st, [Alert ''Invalid Input'' ''Amount must be greater than 0''])"
    by (simp add: handleSubmit_def)
qed

text \<open>
  C10.  A submission that passes validation makes exactly one call of the
  remote store, an insert of one record or an update of the record of the
  route parameter.  The description of the record is the trimmed text of the
  form; its \<^verbatim>\<open>subcategory_id\<close> is null when no subcategory is selected and is
  never the empty string.
\<close>

theorem C10_submitted_record:
  "fst (validateForm st) \<longrightarrow>
     (\<exists>d. calls (snd (handleSubmit props remote st))
            = [if isEditMode props then Update d (transactionId props) else Insert [d]]
         \<and> td_description d = trim (form_description st)
         \<and> (selectedSubcategory st = [] \<longrightarrow> td_subcategory_id d = None)
         \<and> td_subcategory_id d \<noteq> Some [])"
proof
  assume ok: "fst (validateForm st)"
  then have v: "validateForm st = (True, [])"
    by (auto simp: validateForm_def split: if_splits)
  have c: "calls (snd (handleSubmit props remote st))
        = [if isEditMode props then Update (transactionData st) (transactionId props)
           else Insert [transactionData st]]"
    by (cases "respond remote (Update (transactionData st) (transactionId props))";
        cases "respond remote (Insert [transactionData st])")
       (simp_all add: handleSubmit_def v calls_def Let_def)
  show "\<exists>d. calls (snd (handleSubmit props remote st))
            = [if isEditMode props then Update d (transactionId props) else Insert [d]]
         \<and> td_description d = trim (form_description st)
         \<and> (selectedSubcategory st = [] \<longrightarrow> td_subcategory_id d = None)
         \<and> td_subcategory_id d \<noteq> Some []"
    by (rule exI [of _ "transactionData st"]) (simp add: c transactionData_def)
qed

text \<open>
  C9.  A confirmed delete issues exactly one remote delete for the identifier.
  The list afterwards is the list without the transactions of that
  identifier when the call resolves without an error, and the unchanged list
  when the store rejects the call or the call throws: a transaction of the
  list with that identifier is gone if and only if the call succeeded.
  Pressing Cancel only shows the question.
\<close>

theorem C9_delete_only_on_success:
  "calls (snd (confirmDelete remote DeleteButton i descr txs)) = [Delete i]
   \<and> fst (confirmDelete remote DeleteButton i descr txs)
       = (if remote (Delete i) = Succeeded then filter (\<lambda>t. ident t \<noteq> i) txs else txs)
   \<and> (\<forall>t\<in>set txs. ident t = i \<longrightarrow>
         (t \<notin> set (fst (confirmDelete remote DeleteButton i descr txs))
            \<longleftrightarrow> remote (Delete i) = Succeeded))
   \<and> confirmDelete remote CancelButton i descr txs
       = (txs, [Alert ''Delete Transaction''
                  (''Are you sure you want to delete \"'' @ descr @ ''\"?'')])"
  by (cases "remote (Delete i)")
     (auto simp: confirmDelete_def deleteTransaction_def calls_def Let_def)

theorem C8_invalid_submission_rejected_witness:
  "le_zero (parseFloat (form_amount minus_five))
   \<and> form_amount minus_five = ''-5''
   \<and> handleSubmit create_props demo_remote minus_five
       = (minus_five, [Alert ''Invalid Input'' ''Amount must be greater than 0''])
   \<and> calls (snd (handleSubmit create_props demo_remote minus_five)) = []"
proof -
  have a: "form_amount minus_five = ''-5''"
    by (simp add: minus_five_def initialState_def)
  have l: "le_zero (parseFloat (form_amount minus_five))"
    by (simp add: a parseFloat_minus_5 le_zero_def)
  from C8_invalid_submission_rejected [of minus_five create_props demo_remote] a l
  show ?thesis by blast
qed

lemma trim_lunch: "trim ''  Lunch  '' = ''Lunch''"
  by (simp add: trim_def isWhiteSpace_def)

lemma parseFloat_12_50: "parseFloat ''12.50'' = Finite (25 / 2)"
  by (simp add: parseFloat_def unsigned_literal_def exponent_factor_def isWhiteSpace_def isDigit_def
        digits_value_def Let_def)

theorem C10_submitted_record_witness:
  "fst (validateForm lunch_form)
   \<and> selectedSubcategory lunch_form = []
   \<and> (\<exists>d. calls (snd (handleSubmit create_props demo_remote lunch_form)) = [Insert [d]]
          \<and> td_description d = ''Lunch'' \<and> td_subcategory_id d = None)"
proof -
  have v: "fst (validateForm lunch_form)"
    by (simp add: validateForm_def lunch_form_def initialState_def parseFloat_12_50 trim_lunch
          isNaN_def le_zero_def)
  have s: "selectedSubcategory lunch_form = []"
    by (simp add: lunch_form_def initialState_def)
  have t: "trim (form_description lunch_form) = ''Lunch''"
    by (simp add: lunch_form_def initialState_def trim_lunch)
  have e: "\<not> isEditMode create_props"
    by (simp add: create_props_def)
  from C10_submitted_record [of lunch_form create_props demo_remote] v
  obtain d where
    "calls (snd (handleSubmit create_props demo_remote lunch_form))
       = [if isEditMode create_props then Update d (transactionId create_props) else Insert [d]]"
    "td_description d = trim (form_description lunch_form)"
    "selectedSubcategory lunch_form = [] \<longrightarrow> td_subcategory_id d = None"
    by blast
  with s t e have "calls (snd (handleSubmit create_props demo_remote lunch_form)) = [Insert [d]]
          \<and> td_description d = ''Lunch'' \<and> td_subcategory_id d = None"
    by simp
  with v s show ?thesis by blast
qed

theorem C9_delete_only_on_success_witness:
  "salary_and_food ! 1 \<in> set salary_and_food
   \<and> ident (salary_and_food ! 1) = ''2''
   \<and> respond refusing_remote (Delete ''2'') \<noteq> Succeeded
   \<and> salary_and_food ! 1
        \<in> set (fst (confirmDelete (respond refusing_remote) DeleteButton ''2'' ''item'' salary_and_food))
   \<and> respond demo_remote (Delete ''2'') = Succeeded
   \<and> salary_and_food ! 1
        \<notin> set (fst (confirmDelete (respond demo_remote) DeleteButton ''2'' ''item'' salary_and_food))"
proof -
  have m: "salary_and_food ! 1 \<in> set salary_and_food"
    by (simp add: salary_and_food_def)
  have i: "ident (salary_and_food ! 1) = ''2''"
    by (simp add: salary_and_food_def mk_def)
  have r: "respond refusing_remote (Delete ''2'') \<noteq> Succeeded"
    by (simp add: refusing_remote_def)
  have a: "respond demo_remote (Delete ''2'') = Succeeded"
    by (simp add: demo_remote_def)
  from C9_delete_only_on_success [of "respond refusing_remote" "''2''" "''item''" salary_and_food] m i r
  have "salary_and_food ! 1
        \<in> set (fst (confirmDelete (respond refusing_remote) DeleteButton ''2'' ''item'' salary_and_food))"
    by blast
  moreover
  from C9_delete_only_on_success [of "respond demo_remote" "''2''" "''item''" salary_and_food] m i a
  have "salary_and_food ! 1
        \<notin> set (fst (confirmDelete (respond demo_remote) DeleteButton ''2'' ''item'' salary_and_food))"
    by blast
  ultimately show ?thesis using m i r a by blast
qed

end
